theory Spec2Isabelle
  imports Main "HOL-Library.List_Lexorder" "HOL-Library.Sublist"
begin

section \<open>Common model: exceptions, the log, subprocesses\<close>

text \<open>
  The model of \<^verbatim>\<open>tools/setup.py\<close> and \<^verbatim>\<open>tools/get_release.py\<close>.
  Strings are byte strings; the tools only build ASCII text themselves.
  Every raise of the source is a value of \<open>exn\<close>; a function that may raise returns
  \<open>exn + 'a\<close> or \<open>exn option\<close> together with the state it reached.
\<close>

type_synonym cmd = "string list"

datatype exn =
    CalledProcessError cmd int
  | RuntimeError string
  | IndexError string
  | ValueError string
  | AttributeError string
  | HTTPError nat string
  | OtherException string
  | KeyboardInterrupt
  | SystemExit "int option"

text \<open>\<^verbatim>\<open>except Exception\<close> catches everything but the two \<^verbatim>\<open>BaseException\<close>s.\<close>

fun is_Exception :: "exn \<Rightarrow> bool" where
  "is_Exception KeyboardInterrupt = False"
| "is_Exception (SystemExit c) = False"
| "is_Exception e = True"

definition squote :: string where
  "squote = [CHR 0x27]"

definition digit_char :: "nat \<Rightarrow> char" where
  "digit_char d = char_of (48 + d)"

fun str_nat :: "nat \<Rightarrow> string" where
  "str_nat n = (if n < 10 then [digit_char n] else str_nat (n div 10) @ [digit_char (n mod 10)])"

declare str_nat.simps [simp del]

definition str_int :: "int \<Rightarrow> string" where
  "str_int i = (if i < 0 then CHR ''-'' # str_nat (nat (- i)) else str_nat (nat i))"

text \<open>
  \<^verbatim>\<open>repr\<close> of a string and of a list of strings, exact for strings of printable ASCII
  without quote or backslash (the commands of this program and their arguments).
\<close>

definition py_repr :: "string \<Rightarrow> string" where
  "py_repr s = squote @ s @ squote"

fun intercalate :: "string \<Rightarrow> string list \<Rightarrow> string" where
  "intercalate s [] = []"
| "intercalate s [x] = x"
| "intercalate s (x # y # ys) = x @ s @ intercalate s (y # ys)"

definition py_repr_list :: "string list \<Rightarrow> string" where
  "py_repr_list xs = ''['' @ intercalate '', '' (map py_repr xs) @ '']''"

text \<open>The members of \<^verbatim>\<open>signal.Signals\<close> on Linux, as \<^verbatim>\<open>%r\<close> prints them.\<close>

definition signal_names :: "(nat \<times> string) list" where
  "signal_names =
    [(1, ''SIGHUP''), (2, ''SIGINT''), (3, ''SIGQUIT''), (4, ''SIGILL''), (5, ''SIGTRAP''),
     (6, ''SIGABRT''), (7, ''SIGBUS''), (8, ''SIGFPE''), (9, ''SIGKILL''), (10, ''SIGUSR1''),
     (11, ''SIGSEGV''), (12, ''SIGUSR2''), (13, ''SIGPIPE''), (14, ''SIGALRM''),
     (15, ''SIGTERM''), (16, ''SIGSTKFLT''), (17, ''SIGCHLD''), (18, ''SIGCONT''),
     (19, ''SIGSTOP''), (20, ''SIGTSTP''), (21, ''SIGTTIN''), (22, ''SIGTTOU''),
     (23, ''SIGURG''), (24, ''SIGXCPU''), (25, ''SIGXFSZ''), (26, ''SIGVTALRM''),
     (27, ''SIGPROF''), (28, ''SIGWINCH''), (29, ''SIGIO''), (30, ''SIGPWR''), (31, ''SIGSYS''),
     (34, ''SIGRTMIN''), (64, ''SIGRTMAX'')]"

definition died_with :: "nat \<Rightarrow> string" where
  "died_with n =
     (case map_of signal_names n of
        Some nm \<Rightarrow> ''<Signals.'' @ nm @ '': '' @ str_nat n @ ''>''
      | None \<Rightarrow> ''unknown signal '' @ str_nat n)"

text \<open>\<^verbatim>\<open>str(e)\<close>, as the f-strings of the log messages print an exception.\<close>

fun str_exn :: "exn \<Rightarrow> string" where
  "str_exn (CalledProcessError c rc) =
     ''Command '' @ squote @ py_repr_list c @ squote @
       (if rc < 0 then '' died with '' @ died_with (nat (- rc)) @ ''.''
        else '' returned non-zero exit status '' @ str_int rc @ ''.'')"
| "str_exn (RuntimeError m) = m"
| "str_exn (IndexError m) = m"
| "str_exn (ValueError m) = m"
| "str_exn (AttributeError m) = m"
| "str_exn (HTTPError code m) = ''HTTP Error '' @ str_nat code @ '': '' @ m"
| "str_exn (OtherException m) = m"
| "str_exn KeyboardInterrupt = []"
| "str_exn (SystemExit c) = (case c of None \<Rightarrow> ''None'' | Some n \<Rightarrow> str_int n)"

datatype level = DEBUG | INFO | WARNING | ERROR | CRITICAL

type_synonym log = "(level \<times> string) list"

text \<open>
  A finished child process, as \<^verbatim>\<open>subprocess.run\<close> returns it. The streams are
  \<open>None\<close> unless they were captured.
\<close>

record completed =
  returncode :: int
  stdout :: "string option"
  stderr :: "string option"

text \<open>
  The operating system is an oracle over a world \<open>'w\<close>: given a command it either
  fails to run it (an exception of \<^verbatim>\<open>subprocess.run\<close> itself, or an interrupt) or
  runs it to an exit status with its two output streams.
\<close>

type_synonym 'w shell = "'w \<Rightarrow> cmd \<Rightarrow> (exn + int \<times> string \<times> string) \<times> 'w"

text \<open>
  A file is raw bytes or a JSON object whose values are strings or \<^verbatim>\<open>null\<close> (all this
  program writes with \<^verbatim>\<open>json.dump\<close>). The file store maps path strings to files.
  There are no permissions and no full disk.
\<close>

datatype fcontent = Raw string | Json "(string \<times> string option) list"

type_synonym fs = "string \<rightharpoonup> fcontent"

text \<open>
  The state the script threads through: the world, the file store, the directories that
  exist (the extractor looks paths up in them; the downloader writes hashed names into
  its cache directory, which it has made), the calls made to the logger so far, and (as
  a ghost field) the commands run with their exit statuses.
\<close>

record 'w state =
  world :: 'w
  files :: fs
  dirs :: "string set"
  logged :: log
  trace :: "(cmd \<times> int option) list"

definition log_msg :: "level \<Rightarrow> string \<Rightarrow> 'w state \<Rightarrow> 'w state" where
  "log_msg l m st = st\<lparr>logged := logged st @ [(l, m)]\<rparr>"

text \<open>
  \<^verbatim>\<open>run(cmd, verbose, capture_output=..., check=...)\<close> (setup.py, line 172). The streams
  are returned only with \<^verbatim>\<open>capture_output\<close>; a non-zero exit status raises
  \<^verbatim>\<open>CalledProcessError\<close> when \<^verbatim>\<open>check\<close> is set.
\<close>

definition run :: "'w shell \<Rightarrow> cmd \<Rightarrow> bool \<Rightarrow> bool \<Rightarrow> 'w state \<Rightarrow> (exn + completed) \<times> 'w state" where
  "run sh c capture_output check st =
     (case sh (world st) c of
        (Inl e, w') \<Rightarrow> (Inl e, st\<lparr>world := w', trace := trace st @ [(c, None)]\<rparr>)
      | (Inr (rc, out, err), w') \<Rightarrow>
          (let st' = st\<lparr>world := w', trace := trace st @ [(c, Some rc)]\<rparr> in
           if check \<and> rc \<noteq> 0 then (Inl (CalledProcessError c rc), st')
           else (Inr \<lparr>returncode = rc,
                      stdout = (if capture_output then Some out else None),
                      stderr = (if capture_output then Some err else None)\<rparr>, st')))"

section \<open>The process boundary (setup.py, lines 688-697)\<close>

text \<open>
  How the interpreter ends: \<open>Exit n\<close> after \<^verbatim>\<open>sys.exit(n)\<close> or at the end of the
  script (\<open>n = 0\<close>), \<open>Traceback e\<close> when an exception escapes: Python prints the stack
  trace and the exit status is 1.
\<close>

datatype process_end = Exit int | Traceback exn

fun exit_status :: "process_end \<Rightarrow> int" where
  "exit_status (Exit n) = n"
| "exit_status (Traceback e) = 1"

text \<open>
  \<^verbatim>\<open>
  try:
      main()
  except KeyboardInterrupt:
      logger.critical("\rInterrupted")
  except SystemExit as e:
      sys.exit(e.code)
  except Exception as e:
      logger.critical(f"Error: {e}")
      sys.exit(1)
  \<close>
  \<open>main\<close> is given by what it did: the exception it raised (\<open>None\<close> when it returned) and
  the state it reached. The global \<^verbatim>\<open>logger\<close> is only bound inside \<^verbatim>\<open>main\<close>, after the
  arguments are parsed; \<open>logger_bound\<close> says whether that point was reached. A handler
  that uses the unbound name raises \<^verbatim>\<open>NameError\<close>, which escapes.
\<close>

definition script :: "bool \<Rightarrow> exn option \<times> 'w state \<Rightarrow> process_end \<times> 'w state" where
  "script logger_bound r =
     (case r of
        (None, st) \<Rightarrow> (Exit 0, st)
      | (Some KeyboardInterrupt, st) \<Rightarrow>
          (if logger_bound then (Exit 0, log_msg CRITICAL (CHR 0x0D # ''Interrupted'') st)
           else (Traceback (OtherException ''name 'logger' is not defined''), st))
      | (Some (SystemExit c), st) \<Rightarrow> (Exit (case c of None \<Rightarrow> 0 | Some n \<Rightarrow> n), st)
      | (Some e, st) \<Rightarrow>
          (if logger_bound then (Exit 1, log_msg CRITICAL (''Error: '' @ str_exn e) st)
           else (Traceback (OtherException ''name 'logger' is not defined''), st)))"

section \<open>Extension reconciliation (setup.py, lines 508-542)\<close>

definition install_cmd :: "string \<Rightarrow> cmd" where
  "install_cmd ext =
     (if CHR ''@'' \<in> set ext then [''code'', ''--install-extension'', ext]
      else [''code'', ''--install-extension'', ext, ''--force''])"

definition uninstall_cmd :: "string \<Rightarrow> cmd" where
  "uninstall_cmd ext = [''code'', ''--uninstall-extension'', ext]"

text \<open>
  One loop for both passes: \<open>mk\<close> builds the command of an entry. Only
  \<^verbatim>\<open>CalledProcessError\<close> is caught; any other exception leaves the loop. The result is
  the escaping exception, the failed names, and the state. The sleeps and the progress
  bar change nothing that is modelled.
\<close>

fun ext_loop :: "'w shell \<Rightarrow> (string \<Rightarrow> cmd) \<Rightarrow> string list \<Rightarrow> string list \<Rightarrow> 'w state
    \<Rightarrow> exn option \<times> string list \<times> 'w state" where
  "ext_loop sh mk [] fails st = (None, fails, st)"
| "ext_loop sh mk (ext # exts) fails st =
     (case run sh (mk ext) False True st of
        (Inr r, st') \<Rightarrow> ext_loop sh mk exts fails st'
      | (Inl (CalledProcessError c rc), st') \<Rightarrow> ext_loop sh mk exts (fails @ [ext]) st'
      | (Inl e, st') \<Rightarrow> (Some e, fails, st'))"

definition install_warning :: "string \<Rightarrow> level \<times> string" where
  "install_warning ext = (WARNING, ''Could not install VS Code extension '' @ squote @ ext @ squote)"

definition uninstall_warning :: "string \<Rightarrow> level \<times> string" where
  "uninstall_warning ext =
     (WARNING, ''Could not uninstall extension '' @ squote @ ext @ squote @ '' (maybe not installed)'')"

definition reconcile :: "'w shell \<Rightarrow> string list \<Rightarrow> string list \<Rightarrow> 'w state \<Rightarrow> exn option \<times> 'w state" where
  "reconcile sh install uninstall st =
     (let st0 = log_msg INFO ''Managing VS Code extensions (user-level)'' st in
      case ext_loop sh install_cmd install [] st0 of
        (Some e, fi, st1) \<Rightarrow> (Some e, st1)
      | (None, fail_install, st1) \<Rightarrow>
          (case ext_loop sh uninstall_cmd uninstall [] st1 of
             (Some e, fu, st2) \<Rightarrow> (Some e, st2)
           | (None, fail_uninstall, st2) \<Rightarrow>
               (None, st2\<lparr>logged := logged st2 @ map install_warning fail_install
                                      @ map uninstall_warning fail_uninstall\<rparr>)))"

definition VSCODE_EXTENSIONS_install :: "string list" where
  "VSCODE_EXTENSIONS_install =
    [''ms-python.python@2025.12.0'', ''ms-python.black-formatter@2025.2.0'',
     ''ms-python.mypy-type-checker@2025.2.0'', ''ms-toolsai.jupyter@2025.7.0'',
     ''matangover.mypy@0.4.2'', ''jock.svg@1.5.4'']"

definition VSCODE_EXTENSIONS_uninstall :: "string list" where
  "VSCODE_EXTENSIONS_uninstall = [''formulahendry.code-runner'']"

definition manage_vscode_extensions :: "'w shell \<Rightarrow> 'w state \<Rightarrow> exn option \<times> 'w state" where
  "manage_vscode_extensions sh st =
     reconcile sh VSCODE_EXTENSIONS_install VSCODE_EXTENSIONS_uninstall st"

text \<open>
  What processing every entry to completion means: each command of a list is run in its
  turn, in the world the one before left, whatever the earlier ones did. The result is
  what the shell answered to each command, and the last world.
\<close>

fun run_every_command :: "'w shell \<Rightarrow> cmd list \<Rightarrow> 'w \<Rightarrow> (exn + int \<times> string \<times> string) list \<times> 'w" where
  "run_every_command sh [] w = ([], w)"
| "run_every_command sh (c # cs) w =
     (case sh w c of (r, w') \<Rightarrow>
        (case run_every_command sh cs w' of (rs, w'') \<Rightarrow> (r # rs, w'')))"

text \<open>
  Of an answer of the shell: its exit status, whether the command ran at all, and whether
  it ran to a non-zero exit status (what \<^verbatim>\<open>check=True\<close> turns into \<^verbatim>\<open>CalledProcessError\<close>).
\<close>

fun exit_code :: "exn + int \<times> string \<times> string \<Rightarrow> int option" where
  "exit_code (Inl e) = None"
| "exit_code (Inr (rc, out, err)) = Some rc"

fun ran_to_exit :: "exn + int \<times> string \<times> string \<Rightarrow> bool" where
  "ran_to_exit (Inl e) = False"
| "ran_to_exit (Inr r) = True"

fun exited_nonzero :: "exn + int \<times> string \<times> string \<Rightarrow> bool" where
  "exited_nonzero (Inl e) = False"
| "exited_nonzero (Inr (rc, out, err)) = (rc \<noteq> 0)"

text \<open>The entries whose command ran to a non-zero exit status.\<close>

definition failed_entries :: "string list \<Rightarrow> (exn + int \<times> string \<times> string) list \<Rightarrow> string list" where
  "failed_entries exts rs = map fst (filter (\<lambda>(ext, r). exited_nonzero r) (zip exts rs))"

section \<open>Strings of the standard library\<close>

definition py_lower_char :: "char \<Rightarrow> char" where
  "py_lower_char c =
     (let n = (of_char c :: nat) in if 65 \<le> n \<and> n \<le> 90 then char_of (n + 32) else c)"

definition py_lower :: "string \<Rightarrow> string" where
  "py_lower s = map py_lower_char s"




section \<open>Updating a git checkout (setup.py, lines 608-651)\<close>















section \<open>The conditional cache downloader (setup.py, lines 187-238)\<close>

text \<open>
  What \<^verbatim>\<open>urllib.request.urlopen\<close> does with a request: it returns a response (status,
  body, headers), raises \<^verbatim>\<open>HTTPError\<close> with a status code, or raises something else.
\<close>

datatype http_outcome =
    Response nat string "(string \<times> string) list"
  | RaisesHTTPError nat string
  | RaisesOther string

record request =
  req_url :: string
  req_headers :: "(string \<times> string) list"

text \<open>
  \<^verbatim>\<open>cache_dir / sha256(url).hexdigest()\<close> and its \<^verbatim>\<open>.with_suffix(".meta.json")\<close>. The
  digest has no dot, so the suffix is appended. The hash is a parameter \<open>h\<close>.
\<close>

definition cache_path :: "string \<Rightarrow> (string \<Rightarrow> string) \<Rightarrow> string \<Rightarrow> string" where
  "cache_path cache_dir h url = cache_dir @ ''/'' @ h url"

definition meta_path :: "string \<Rightarrow> (string \<Rightarrow> string) \<Rightarrow> string \<Rightarrow> string" where
  "meta_path cache_dir h url = cache_path cache_dir h url @ ''.meta.json''"

text \<open>\<^verbatim>\<open>meta.get(k)\<close> is truthy: the key is there with a non-empty string.\<close>

definition meta_get :: "(string \<times> string option) list \<Rightarrow> string \<Rightarrow> string option" where
  "meta_get doc k = (case map_of doc k of Some (Some v) \<Rightarrow> (if v = [] then None else Some v) | _ \<Rightarrow> None)"

definition conditional_headers :: "(string \<times> string option) list \<Rightarrow> (string \<times> string) list" where
  "conditional_headers doc =
     [(''User-Agent'', ''Client'')]
     @ (case meta_get doc ''ETag'' of None \<Rightarrow> [] | Some v \<Rightarrow> [(''If-None-Match'', v)])
     @ (case meta_get doc ''Last-Modified'' of None \<Rightarrow> [] | Some v \<Rightarrow> [(''If-Modified-Since'', v)])"

text \<open>
  The headers of the request, from the metadata file if there is one. A metadata file
  that is not a JSON object makes \<^verbatim>\<open>json.load\<close> or \<^verbatim>\<open>meta.get\<close> raise.
\<close>

definition request_headers :: "fcontent option \<Rightarrow> exn + (string \<times> string) list" where
  "request_headers meta =
     (case meta of
        None \<Rightarrow> Inr [(''User-Agent'', ''Client'')]
      | Some (Raw b) \<Rightarrow> Inl (ValueError ''JSONDecodeError'')
      | Some (Json doc) \<Rightarrow> Inr (conditional_headers doc))"

text \<open>\<^verbatim>\<open>response.headers.get(name)\<close>: header names compare without case, first match.\<close>

definition header_get :: "(string \<times> string) list \<Rightarrow> string \<Rightarrow> string option" where
  "header_get hdrs name = map_of (map (\<lambda>(k, v). (py_lower k, v)) hdrs) (py_lower name)"

definition response_meta :: "string \<Rightarrow> (string \<times> string) list \<Rightarrow> fcontent" where
  "response_meta url hdrs =
     Json [(''Url'', Some url), (''ETag'', header_get hdrs ''ETag''),
           (''Last-Modified'', header_get hdrs ''Last-Modified'')]"

definition download_with_etag ::
  "(request \<Rightarrow> http_outcome) \<Rightarrow> string \<Rightarrow> (string \<Rightarrow> string) \<Rightarrow> string \<Rightarrow> 'w state
     \<Rightarrow> (exn + string) \<times> 'w state" where
  "download_with_etag urlopen cache_dir h url st =
     (let cp = cache_path cache_dir h url; mp = meta_path cache_dir h url in
      case request_headers (files st mp) of
        Inl e \<Rightarrow> (Inl e, st)
      | Inr headers \<Rightarrow>
          (case urlopen \<lparr>req_url = url, req_headers = headers\<rparr> of
             Response status body hdrs \<Rightarrow>
               (if status = 304 then (Inr cp, log_msg DEBUG ''Not modified, using cache.'' st)
                else
                  (let s1 = log_msg DEBUG (''Downloading: '' @ url) st;
                       s2 = s1\<lparr>files := (files s1)(cp \<mapsto> Raw body)\<rparr>;
                       s3 = s2\<lparr>files := (files s2)(mp \<mapsto> response_meta url hdrs)\<rparr>
                   in (Inr cp, s3)))
           | RaisesHTTPError code m \<Rightarrow>
               (if code = 304 then (Inr cp, log_msg DEBUG ''Not modified (304), using cache.'' st)
                else (Inl (HTTPError code m), st))
           | RaisesOther m \<Rightarrow> (Inl (OtherException m), st)))"

definition download_github_zip ::
  "(request \<Rightarrow> http_outcome) \<Rightarrow> string \<Rightarrow> (string \<Rightarrow> string) \<Rightarrow> string \<Rightarrow> 'w state
     \<Rightarrow> (exn + string) \<times> 'w state" where
  "download_github_zip urlopen cache_dir h url st =
     (case download_with_etag urlopen cache_dir h url (log_msg INFO (''Download archive: '' @ url) st) of
        (Inr p, s) \<Rightarrow> (Inr p, s)
      | (Inl e, s) \<Rightarrow>
          (if is_Exception e
           then (Inl (RuntimeError (''Download failed: '' @ url @ [CHR 0x0A] @ str_exn e)), s)
           else (Inl e, s)))"

section \<open>The retrying cloner (setup.py, lines 284-307)\<close>

definition clone_cmd :: "string \<Rightarrow> string \<Rightarrow> bool \<Rightarrow> cmd" where
  "clone_cmd url dest deep =
     (if deep then [''git'', ''clone'', url, dest]
      else [''git'', ''clone'', ''--depth'', ''1'', ''--single-branch'', url, dest])"

text \<open>How the \<^verbatim>\<open>while\<close> loop is left: by \<^verbatim>\<open>return\<close>, by an exception, or by its condition.\<close>

datatype loop_end = Returned | Raised exn | Expired

text \<open>
  The clock is injected: time is counted in milliseconds since \<^verbatim>\<open>start\<close>, and
  \<^verbatim>\<open>time.sleep(1)\<close> takes 1000. The \<open>i\<close>-th attempt takes \<open>d\<close> milliseconds when
  \<open>dur i = Some d\<close>; it never ends when \<open>dur i = None\<close> (\<^verbatim>\<open>run\<close> passes no timeout to
  \<^verbatim>\<open>subprocess.run\<close>), and then the loop never ends either: the result is \<open>None\<close>. The
  loop condition \<^verbatim>\<open>time.time() - start < timeout\<close> compares the elapsed time with the
  budget \<open>budget = 1000 * timeout\<close>. Only \<^verbatim>\<open>CalledProcessError\<close> is caught. The result is
  the way the loop ended, the elapsed time then, and the state.
\<close>

function clone_loop :: "'w shell \<Rightarrow> (nat \<Rightarrow> nat option) \<Rightarrow> cmd \<Rightarrow> int \<Rightarrow> nat \<Rightarrow> nat \<Rightarrow> 'w state
    \<Rightarrow> (loop_end \<times> nat \<times> 'w state) option" where
  "clone_loop sh dur c budget elapsed i st =
     (if int elapsed < budget then
        (case dur i of
           None \<Rightarrow> None
         | Some d \<Rightarrow>
             (case run sh c False True st of
                (Inr r, st') \<Rightarrow> Some (Returned, elapsed + d, st')
              | (Inl (CalledProcessError c' rc), st') \<Rightarrow>
                  clone_loop sh dur c budget (elapsed + d + 1000) (Suc i) st'
              | (Inl e, st') \<Rightarrow> Some (Raised e, elapsed + d, st')))
      else Some (Expired, elapsed, st))"
  by pat_completeness auto
termination
  by (relation "measure (\<lambda>(sh, dur, c, budget, elapsed, i, st). nat (budget - int elapsed))") auto

declare clone_loop.simps [simp del]

text \<open>
  \<^verbatim>\<open>git_clone_with_retries(url, dest, timeout, verbose, deep)\<close>. Whether \<^verbatim>\<open>dest\<close> exists
  when the loop has ended is read from the world by \<open>dest_exists\<close>. The result is \<open>None\<close>
  when the call never returns, and else the exception raised (if any), the elapsed time
  and the state.
\<close>

definition git_clone_with_retries ::
  "'w shell \<Rightarrow> (nat \<Rightarrow> nat option) \<Rightarrow> ('w \<Rightarrow> bool) \<Rightarrow> string \<Rightarrow> string \<Rightarrow> int \<Rightarrow> bool \<Rightarrow> 'w state
     \<Rightarrow> (exn option \<times> nat \<times> 'w state) option" where
  "git_clone_with_retries sh dur dest_exists url dest timeout deep st =
     (case clone_loop sh dur (clone_cmd url dest deep) (1000 * timeout) 0 0
             (log_msg INFO (''Cloning project: '' @ url) st) of
        None \<Rightarrow> None
      | Some (Returned, t, st') \<Rightarrow> Some (None, t, st')
      | Some (Raised e, t, st') \<Rightarrow> Some (Some e, t, st')
      | Some (Expired, t, st') \<Rightarrow>
          (if \<not> dest_exists (world st')
           then Some (Some (RuntimeError (''Failed to clone '' @ url)), t, st')
           else Some (None, t, st')))"

text \<open>
  When the \<open>j\<close>-th attempt starts if all the attempts before it were retried: each took its
  time and was followed by one second of sleep.
\<close>

fun started_at :: "(nat \<Rightarrow> nat option) \<Rightarrow> nat \<Rightarrow> nat" where
  "started_at dur 0 = 0"
| "started_at dur (Suc j) = started_at dur j + (case dur j of Some d \<Rightarrow> d | None \<Rightarrow> 0) + 1000"

text \<open>
  Of an answer of the shell to a clone attempt: whether the attempt completed successfully
  (exit status 0), and whether it ended in the \<^verbatim>\<open>CalledProcessError\<close> that the loop
  catches and retries.
\<close>

fun succeeded :: "exn + int \<times> string \<times> string \<Rightarrow> bool" where
  "succeeded (Inr (rc, out, err)) = (rc = 0)"
| "succeeded (Inl e) = False"

fun retried :: "exn + int \<times> string \<times> string \<Rightarrow> bool" where
  "retried (Inr (rc, out, err)) = (rc \<noteq> 0)"
| "retried (Inl (CalledProcessError c rc)) = True"
| "retried (Inl e) = False"

text \<open>
  A remote that is never reachable and one that always answers; attempts that fail at
  once and attempts that take five seconds; a destination that is there and one that is
  not.
\<close>

definition failing_shell :: "nat shell" where
  "failing_shell w c = (Inr (128, [], []), Suc w)"

definition working_shell :: "nat shell" where
  "working_shell w c = (Inr (0, [], []), Suc w)"

definition instant :: "nat \<Rightarrow> nat option" where
  "instant i = Some 0"

definition five_seconds :: "nat \<Rightarrow> nat option" where
  "five_seconds i = Some 5000"

definition dest_present :: "nat \<Rightarrow> bool" where
  "dest_present w = True"

definition dest_absent :: "nat \<Rightarrow> bool" where
  "dest_absent w = False"

section \<open>Release selection (get_release.py, lines 33-57)\<close>

definition is_digit :: "char \<Rightarrow> bool" where
  "is_digit c = (let n = (of_char c :: nat) in 48 \<le> n \<and> n \<le> 57)"

text \<open>
  One group \<^verbatim>\<open>\.\d+\<close> at the head of a string: the group and what follows it.
\<close>

definition dot_group :: "string \<Rightarrow> (string \<times> string) option" where
  "dot_group s =
     (case s of
        [] \<Rightarrow> None
      | c # t \<Rightarrow>
          (if c = CHR ''.'' \<and> takeWhile is_digit t \<noteq> []
           then Some (c # takeWhile is_digit t, dropWhile is_digit t) else None))"

text \<open>
  The first group of the pattern, \<^verbatim>\<open>(v\d+(?:\.\d+){0,2})\<close>, matched greedily at the head
  of the tag. Giving back a digit or a dot group never helps the rest of the pattern,
  which must start with \<^verbatim>\<open>-\<close> or be at the end, so the greedy match is the only one.
\<close>

definition match_version :: "string \<Rightarrow> (string \<times> string) option" where
  "match_version s =
     (case s of
        [] \<Rightarrow> None
      | c # t \<Rightarrow>
          (if c = CHR ''v'' \<and> takeWhile is_digit t \<noteq> [] then
             (let v1 = c # takeWhile is_digit t; r1 = dropWhile is_digit t in
              case dot_group r1 of
                None \<Rightarrow> Some (v1, r1)
              | Some (g2, r2) \<Rightarrow>
                  (case dot_group r2 of
                     None \<Rightarrow> Some (v1 @ g2, r2)
                   | Some (g3, r3) \<Rightarrow> Some (v1 @ g2 @ g3, r3)))
           else None))"

text \<open>
  The rest of the pattern, \<^verbatim>\<open>(?:-(.+))?$\<close>: \<^verbatim>\<open>.\<close> is any character but a newline, and
  \<^verbatim>\<open>$\<close> matches at the end and before a newline that ends the string. The result is
  \<open>None\<close> without a match, else the label group.
\<close>

definition newline :: char where
  "newline = CHR 0x0A"

definition match_label :: "string \<Rightarrow> string option option" where
  "match_label r =
     (if r = [] \<or> r = [newline] then Some None
      else (case r of
              [] \<Rightarrow> None
            | c # l \<Rightarrow>
                (if c \<noteq> CHR ''-'' \<or> l = [] then None
                 else if newline \<notin> set l then Some (Some l)
                 else if last l = newline \<and> butlast l \<noteq> [] \<and> newline \<notin> set (butlast l)
                   then Some (Some (butlast l))
                 else None)))"

text \<open>\<^verbatim>\<open>parse_tag\<close>: the two groups of the match, or \<^verbatim>\<open>(None, None)\<close>.\<close>

definition parse_tag :: "string \<Rightarrow> string option \<times> string option" where
  "parse_tag tag =
     (case match_version tag of
        None \<Rightarrow> (None, None)
      | Some (vt, r) \<Rightarrow>
          (case match_label r of
             None \<Rightarrow> (None, None)
           | Some label \<Rightarrow> (Some vt, label)))"

text \<open>\<^verbatim>\<open>s.split(c)\<close>.\<close>

fun py_split :: "char \<Rightarrow> string \<Rightarrow> string list" where
  "py_split c [] = [[]]"
| "py_split c (x # xs) =
     (if x = c then [] # py_split c xs
      else (case py_split c xs of [] \<Rightarrow> [[x]] | y # ys \<Rightarrow> (x # y) # ys))"

definition nat_of_digits :: "string \<Rightarrow> nat" where
  "nat_of_digits s = foldl (\<lambda>n c. 10 * n + (of_char c - 48)) 0 s"

text \<open>
  \<^verbatim>\<open>packaging.version.Version\<close> on a dotted string of digits, by the key that orders
  versions: the release numbers without trailing zeros, compared as tuples (the
  lexicographic order of lists). Other strings, which \<^verbatim>\<open>parse_tag\<close> cannot produce
  from ASCII digits, are \<^verbatim>\<open>InvalidVersion\<close> here.
\<close>

definition Version :: "string \<Rightarrow> nat list option" where
  "Version s =
     (let cs = py_split (CHR ''.'') s in
      if list_all (\<lambda>c. c \<noteq> [] \<and> list_all is_digit c) cs
      then Some (rev (dropWhile (\<lambda>n. n = 0) (rev (map nat_of_digits cs))))
      else None)"

record release =
  tag_name :: string
  assets :: "(string \<times> string) list"

text \<open>
  The body of the loop: \<open>None\<close> for \<^verbatim>\<open>continue\<close>, else the pair appended to
  \<^verbatim>\<open>matches\<close>. An absent or empty filter is falsy. \<open>re_match p s\<close> stands for
  \<^verbatim>\<open>re.match(p, s)\<close> being a match.
\<close>

definition candidate ::
  "(string \<Rightarrow> string \<Rightarrow> bool) \<Rightarrow> string option \<Rightarrow> string option \<Rightarrow> release
     \<Rightarrow> (nat list \<times> release) option" where
  "candidate re_match version_prefix label_regex rel =
     (case parse_tag (tag_name rel) of
        (None, label) \<Rightarrow> None
      | (Some version_tag, label) \<Rightarrow>
          (if version_tag = [] then None
           else if (case version_prefix of None \<Rightarrow> False
                    | Some vp \<Rightarrow> vp \<noteq> [] \<and> \<not> prefix vp version_tag) then None
           else if (case label_regex of None \<Rightarrow> False
                    | Some lr \<Rightarrow> lr \<noteq> [] \<and>
                        (case label of None \<Rightarrow> True | Some l \<Rightarrow> \<not> re_match lr l)) then None
           else (case Version (tl version_tag) of
                   None \<Rightarrow> None
                 | Some version_obj \<Rightarrow> Some (version_obj, rel))))"

text \<open>\<^verbatim>\<open>max(matches, key=lambda x: x[0])\<close>: the first item with the greatest key.\<close>

fun py_max_by :: "('k::linorder \<times> 'a) \<Rightarrow> ('k \<times> 'a) list \<Rightarrow> ('k \<times> 'a)" where
  "py_max_by best [] = best"
| "py_max_by best (x # xs) = py_max_by (if fst best < fst x then x else best) xs"

definition select_latest_matching_release ::
  "(string \<Rightarrow> string \<Rightarrow> bool) \<Rightarrow> release list \<Rightarrow> string option \<Rightarrow> string option
     \<Rightarrow> release option" where
  "select_latest_matching_release re_match releases version_prefix label_regex =
     (case List.map_filter (candidate re_match version_prefix label_regex) releases of
        [] \<Rightarrow> None
      | m # ms \<Rightarrow> Some (snd (py_max_by m ms)))"

text \<open>\<^verbatim>\<open>re.match\<close> for a pattern without metacharacters: the subject starts with it.\<close>

definition literal_re_match :: "string \<Rightarrow> string \<Rightarrow> bool" where
  "literal_re_match p s = prefix p s"

text \<open>
  The claim's words. A tag has the strict form \<^verbatim>\<open>vMAJOR[.MINOR[.PATCH]][-label]\<close> with
  version part \<open>vt\<close> and label \<open>label\<close>: one to three non-empty groups of digits joined by
  dots after the \<^verbatim>\<open>v\<close>, then nothing, or a dash and a non-empty label.
\<close>

definition strict_tag :: "string \<Rightarrow> string \<Rightarrow> string option \<Rightarrow> bool" where
  "strict_tag tag vt label =
     (\<exists>nums. 1 \<le> length nums \<and> length nums \<le> 3
        \<and> (\<forall>n \<in> set nums. n \<noteq> [] \<and> list_all is_digit n)
        \<and> vt = CHR ''v'' # intercalate ''.'' nums
        \<and> (case label of None \<Rightarrow> tag = vt | Some l \<Rightarrow> l \<noteq> [] \<and> tag = vt @ ''-'' @ l))"

text \<open>
  A release is eligible: its tag has the strict form and passes the optional prefix
  filter on the version part and the optional label filter.
\<close>

definition eligible ::
  "(string \<Rightarrow> string \<Rightarrow> bool) \<Rightarrow> string option \<Rightarrow> string option \<Rightarrow> release \<Rightarrow> bool" where
  "eligible re_match version_prefix label_regex rel =
     (\<exists>vt label. strict_tag (tag_name rel) vt label
        \<and> (\<forall>vp. version_prefix = Some vp \<and> vp \<noteq> [] \<longrightarrow> prefix vp vt)
        \<and> (\<forall>lr. label_regex = Some lr \<and> lr \<noteq> [] \<longrightarrow> (\<exists>l. label = Some l \<and> re_match lr l)))"

text \<open>The version a tag of the strict form is ordered by.\<close>

definition tag_version :: "release \<Rightarrow> nat list" where
  "tag_version rel =
     (case fst (parse_tag (tag_name rel)) of
        None \<Rightarrow> []
      | Some vt \<Rightarrow> (case Version (tl vt) of None \<Rightarrow> [] | Some v \<Rightarrow> v))"

definition three_releases :: "release list" where
  "three_releases =
     [\<lparr>tag_name = ''v1.2.0'', assets = []\<rparr>, \<lparr>tag_name = ''v1.3.0-beta'', assets = []\<rparr>,
      \<lparr>tag_name = ''v1.2.5'', assets = []\<rparr>]"

section \<open>Paths of the standard library (posixpath)\<close>

definition startswith_sep :: "string \<Rightarrow> bool" where
  "startswith_sep p = (case p of [] \<Rightarrow> False | c # t \<Rightarrow> c = CHR ''/'')"

text \<open>\<^verbatim>\<open>os.path.join(a, b)\<close>.\<close>

definition path_join :: "string \<Rightarrow> string \<Rightarrow> string" where
  "path_join a b =
     (if startswith_sep b then b
      else if a = [] \<or> last a = CHR ''/'' then a @ b
      else a @ ''/'' @ b)"

text \<open>\<^verbatim>\<open>os.path.join(*parts)\<close> for a non-empty list of parts.\<close>

definition path_join_list :: "string list \<Rightarrow> string" where
  "path_join_list parts = (case parts of [] \<Rightarrow> [] | a # bs \<Rightarrow> foldl path_join a bs)"

text \<open>
  \<^verbatim>\<open>os.path.normpath\<close>. One or two leading slashes are kept as they are, three or more
  become one. The loop over the components drops empty ones and \<^verbatim>\<open>.\<close>, and lets \<^verbatim>\<open>..\<close>
  remove the component before it.
\<close>

definition initial_slashes :: "string \<Rightarrow> nat" where
  "initial_slashes p =
     (if prefix ''/'' p then (if prefix ''//'' p \<and> \<not> prefix ''///'' p then 2 else 1) else 0)"

fun norm_comps :: "nat \<Rightarrow> string list \<Rightarrow> string list \<Rightarrow> string list" where
  "norm_comps init new_comps [] = new_comps"
| "norm_comps init new_comps (c # comps) =
     (if c = [] \<or> c = ''.'' then norm_comps init new_comps comps
      else if c = ''..'' \<and> \<not> (init = 0 \<and> new_comps = [])
                \<and> \<not> (new_comps \<noteq> [] \<and> last new_comps = ''..'')
        then (if new_comps \<noteq> [] then norm_comps init (butlast new_comps) comps
              else norm_comps init new_comps comps)
      else norm_comps init (new_comps @ [c]) comps)"

definition normpath :: "string \<Rightarrow> string" where
  "normpath p =
     (if p = [] then ''.''
      else (let init = initial_slashes p;
                path = replicate init (CHR ''/'')
                       @ intercalate ''/'' (norm_comps init [] (py_split (CHR ''/'') p))
            in if path = [] then ''.'' else path))"

text \<open>\<^verbatim>\<open>os.path.abspath\<close>, with the current directory \<open>cwd\<close> as a parameter.\<close>

definition abspath :: "string \<Rightarrow> string \<Rightarrow> string" where
  "abspath cwd p = normpath (if startswith_sep p then p else path_join cwd p)"

text \<open>\<^verbatim>\<open>os.path.commonprefix\<close> of two lists: their longest common prefix.\<close>

fun commonprefix :: "'a list \<Rightarrow> 'a list \<Rightarrow> 'a list" where
  "commonprefix (x # xs) (y # ys) = (if x = y then x # commonprefix xs ys else [])"
| "commonprefix xs ys = []"

text \<open>\<^verbatim>\<open>os.path.relpath(path, start)\<close>; an empty path is a \<^verbatim>\<open>ValueError\<close>.\<close>

definition relpath :: "string \<Rightarrow> string \<Rightarrow> string \<Rightarrow> exn + string" where
  "relpath cwd path start =
     (if path = [] then Inl (ValueError ''no path specified'')
      else (let start_list = filter (\<lambda>x. x \<noteq> []) (py_split (CHR ''/'') (abspath cwd start));
                path_list = filter (\<lambda>x. x \<noteq> []) (py_split (CHR ''/'') (abspath cwd path));
                i = length (commonprefix start_list path_list);
                rel_list = replicate (length start_list - i) ''..'' @ drop i path_list
            in if rel_list = [] then Inr ''.'' else Inr (path_join_list rel_list)))"

section \<open>The file system\<close>

text \<open>
  A plain path component: not empty, not \<^verbatim>\<open>.\<close> or \<^verbatim>\<open>..\<close>, without a slash. An absolute
  path in normal form is a slash followed by plain components joined by slashes.
\<close>

definition plain :: "string \<Rightarrow> bool" where
  "plain c = (c \<noteq> [] \<and> c \<noteq> ''.'' \<and> c \<noteq> ''..'' \<and> CHR ''/'' \<notin> set c)"

definition abs_of :: "string list \<Rightarrow> string" where
  "abs_of cs = CHR ''/'' # intercalate ''/'' cs"

text \<open>
  The directories and the files of the state are keyed by absolute paths in normal form,
  the path of the components \<open>cs\<close> being \<open>abs_of cs\<close>; there are no symbolic links. The
  root directory always exists.
\<close>

definition is_directory :: "'w state \<Rightarrow> string list \<Rightarrow> bool" where
  "is_directory st cs = (cs = [] \<or> abs_of cs \<in> dirs st)"

text \<open>
  Path resolution, as the kernel does it, from the directory \<open>cur\<close>: a component is looked
  up in a directory that exists; an empty component and \<^verbatim>\<open>.\<close> stay there, \<^verbatim>\<open>..\<close> goes to
  the parent, a name goes to the entry of that name, which need not exist when it is the
  last one. The result is \<open>None\<close> when the path cannot be followed (\<^verbatim>\<open>ENOENT\<close>,
  \<^verbatim>\<open>ENOTDIR\<close>).
\<close>

fun walk :: "'w state \<Rightarrow> string list \<Rightarrow> string list \<Rightarrow> string list option" where
  "walk st cur [] = Some cur"
| "walk st cur (c # cs) =
     (if \<not> is_directory st cur then None
      else if c = [] \<or> c = ''.'' then walk st cur cs
      else if c = ''..'' then walk st (butlast cur) cs
      else walk st (cur @ [c]) cs)"

text \<open>The components of a path as the kernel reads it in the current directory \<open>cwd\<close>.\<close>

definition components_from :: "string \<Rightarrow> string \<Rightarrow> string list" where
  "components_from cwd p = py_split (CHR ''/'') (if startswith_sep p then p else path_join cwd p)"

definition resolve :: "string \<Rightarrow> string \<Rightarrow> 'w state \<Rightarrow> string list option" where
  "resolve cwd p st = (if p = [] then None else walk st [] (components_from cwd p))"

text \<open>\<^verbatim>\<open>os.path.exists(p)\<close>: the path can be followed and names a directory or a file.\<close>

definition path_exists :: "string \<Rightarrow> string \<Rightarrow> 'w state \<Rightarrow> bool" where
  "path_exists cwd p st =
     (case resolve cwd p st of
        None \<Rightarrow> False
      | Some k \<Rightarrow> is_directory st k \<or> abs_of k \<in> dom (files st))"

text \<open>\<^verbatim>\<open>os.path.dirname(p)\<close>: up to the last slash, without trailing slashes unless it is all slashes.\<close>

definition py_dirname :: "string \<Rightarrow> string" where
  "py_dirname p =
     (let head = rev (dropWhile (\<lambda>c. c \<noteq> CHR ''/'') (rev p))
      in if head \<noteq> [] \<and> \<not> list_all (\<lambda>c. c = CHR ''/'') head
         then rev (dropWhile (\<lambda>c. c = CHR ''/'') (rev head)) else head)"

text \<open>
  \<^verbatim>\<open>os.makedirs(name, exist_ok=True)\<close> makes every directory on the way that is missing
  (also the one before a \<^verbatim>\<open>..\<close>), and raises \<^verbatim>\<open>OSError\<close> (\<^verbatim>\<open>FileExistsError\<close>,
  \<^verbatim>\<open>NotADirectoryError\<close>) when a name on the way is a file; what it made before stays.
  The errors of the operating system are \<open>OtherException\<close>; their texts are not modelled.
\<close>

fun mkdirs :: "string list \<Rightarrow> string list \<Rightarrow> 'w state \<Rightarrow> exn option \<times> 'w state" where
  "mkdirs cur [] st = (None, st)"
| "mkdirs cur (c # cs) st =
     (if c = [] \<or> c = ''.'' then mkdirs cur cs st
      else if c = ''..'' then mkdirs (butlast cur) cs st
      else if abs_of (cur @ [c]) \<in> dom (files st) then (Some (OtherException ''OSError''), st)
      else mkdirs (cur @ [c]) cs (st\<lparr>dirs := insert (abs_of (cur @ [c])) (dirs st)\<rparr>))"

definition makedirs :: "string \<Rightarrow> string \<Rightarrow> 'w state \<Rightarrow> exn option \<times> 'w state" where
  "makedirs cwd name st =
     (if name = [] then (Some (OtherException ''OSError''), st)
      else mkdirs [] (components_from cwd name) st)"

text \<open>
  \<^verbatim>\<open>with open(p, "wb") as f: f.write(c)\<close>: the file that \<open>p\<close> resolves to is created or
  replaced. It is an \<^verbatim>\<open>OSError\<close> when the path cannot be followed, names a directory, or
  has no directory to be in.
\<close>

definition open_write :: "string \<Rightarrow> string \<Rightarrow> fcontent \<Rightarrow> 'w state \<Rightarrow> exn option \<times> 'w state" where
  "open_write cwd p c st =
     (case resolve cwd p st of
        None \<Rightarrow> (Some (OtherException ''OSError''), st)
      | Some k \<Rightarrow>
          (if is_directory st k \<or> \<not> is_directory st (butlast k)
           then (Some (OtherException ''OSError''), st)
           else (None, st\<lparr>files := (files st)(abs_of k \<mapsto> c)\<rparr>)))"

section \<open>The archive extractor (setup.py, lines 241-281)\<close>

text \<open>
  A member of the archive, as \<^verbatim>\<open>infolist()\<close> gives it, with the bytes that
  \<^verbatim>\<open>zip_ref.read(member)\<close> returns. A name that ends with a slash is a directory.
\<close>

record zipinfo =
  filename :: string
  content :: string

definition is_dir :: "zipinfo \<Rightarrow> bool" where
  "is_dir m = (filename m \<noteq> [] \<and> last (filename m) = CHR ''/'')"

text \<open>\<^verbatim>\<open>members[0].filename.split("/")[0] + "/"\<close>; both subscripts can raise.\<close>

definition root_prefix :: "zipinfo list \<Rightarrow> exn + string" where
  "root_prefix members =
     (case members of
        [] \<Rightarrow> Inl (IndexError ''list index out of range'')
      | m # ms \<Rightarrow>
          (case py_split (CHR ''/'') (filename m) of
             [] \<Rightarrow> Inl (IndexError ''list index out of range'')
           | c # cs \<Rightarrow> Inr (c @ ''/'')))"

definition member_relpath :: "string \<Rightarrow> string \<Rightarrow> zipinfo \<Rightarrow> exn + string" where
  "member_relpath cwd root m = relpath cwd (filename m) root"

text \<open>
  The body of the loop for one member. The progress bar prints only; it changes nothing
  that is modelled.
\<close>

definition extract_member ::
  "string \<Rightarrow> string \<Rightarrow> string \<Rightarrow> bool \<Rightarrow> string set \<Rightarrow> zipinfo \<Rightarrow> 'w state \<Rightarrow> exn option \<times> 'w state" where
  "extract_member cwd root extract_to overwrite force_overwrite m st =
     (if is_dir m then (None, st)
      else (case member_relpath cwd root m of
              Inl e \<Rightarrow> (Some e, st)
            | Inr rel \<Rightarrow>
                (let target_path = path_join extract_to rel in
                 if overwrite \<or> \<not> path_exists cwd target_path st \<or> rel \<in> force_overwrite
                 then (case makedirs cwd (py_dirname target_path) st of
                         (Some e, s1) \<Rightarrow> (Some e, s1)
                       | (None, s1) \<Rightarrow> open_write cwd target_path (Raw (content m)) s1)
                 else (None, log_msg DEBUG (''Skipped existing file: '' @ target_path) st))))"

fun extract_members ::
  "string \<Rightarrow> string \<Rightarrow> string \<Rightarrow> bool \<Rightarrow> string set \<Rightarrow> zipinfo list \<Rightarrow> 'w state \<Rightarrow> exn option \<times> 'w state" where
  "extract_members cwd root extract_to overwrite force_overwrite [] st = (None, st)"
| "extract_members cwd root extract_to overwrite force_overwrite (m # ms) st =
     (case extract_member cwd root extract_to overwrite force_overwrite m st of
        (Some e, st') \<Rightarrow> (Some e, st')
      | (None, st') \<Rightarrow> extract_members cwd root extract_to overwrite force_overwrite ms st')"

text \<open>
  \<^verbatim>\<open>extract_archive(path, extract_to, overwrite, verbose, force_overwrite)\<close>, given the
  members of the opened archive, the current directory, and whether \<^verbatim>\<open>extract_to\<close>
  exists.
\<close>

definition extract_archive ::
  "string \<Rightarrow> bool \<Rightarrow> zipinfo list \<Rightarrow> string \<Rightarrow> bool \<Rightarrow> string set \<Rightarrow> 'w state \<Rightarrow> exn option \<times> 'w state" where
  "extract_archive cwd target_exists members extract_to overwrite force_overwrite st =
     (let s1 = log_msg INFO (''Extract class materials: '' @ extract_to) st;
          s2 = (if target_exists
                then (if overwrite then log_msg WARNING ''Overwrite existing files'' s1
                      else log_msg WARNING ''Existing files are not updated (use --force)'' s1)
                else s1)
      in case root_prefix members of
           Inl e \<Rightarrow> (Some e, s2)
         | Inr root \<Rightarrow> extract_members cwd root extract_to overwrite force_overwrite members s2)"

text \<open>The default of the parameter \<^verbatim>\<open>force_overwrite\<close>.\<close>

definition default_force_overwrite :: "string set" where
  "default_force_overwrite = {''update.py''}"

text \<open>
  An absolute path lies inside a directory: in normal form, the components of the
  directory are a proper prefix of the components of the path.
\<close>

definition path_comps :: "string \<Rightarrow> string list" where
  "path_comps p = filter (\<lambda>x. x \<noteq> []) (py_split (CHR ''/'') (normpath p))"

definition inside_dir :: "string \<Rightarrow> string \<Rightarrow> bool" where
  "inside_dir d p = strict_prefix (path_comps d) (path_comps p)"

text \<open>
  A well-formed file system: whatever exists lies in directories that exist, up to the
  root.
\<close>

definition wf_fs :: "'w state \<Rightarrow> bool" where
  "wf_fs st = (\<forall>p \<in> dirs st \<union> dom (files st).
                 \<forall>j < length (path_comps p). is_directory st (take j (path_comps p)))"

text \<open>An archive with one root folder, as GitHub makes them.\<close>

definition one_root :: "zipinfo list" where
  "one_root = [\<lparr>filename = ''root/'', content = []\<rparr>,
               \<lparr>filename = ''root/a.txt'', content = ''A''\<rparr>,
               \<lparr>filename = ''root/update.py'', content = ''U''\<rparr>,
               \<lparr>filename = ''root/sub/'', content = []\<rparr>,
               \<lparr>filename = ''root/sub/b.txt'', content = ''B''\<rparr>]"

text \<open>
  A course directory with a file that was edited and an old self-update script, and the
  directory of the current user.
\<close>

definition edited_state :: "nat state" where
  "edited_state = \<lparr>world = 0,
     files = [''/base/course/a.txt'' \<mapsto> Raw ''edited'', ''/base/course/update.py'' \<mapsto> Raw ''old''],
     dirs = {''/base'', ''/base/course'', ''/home'', ''/home/u''},
     logged = [], trace = []\<rparr>"

text \<open>
  An archive whose second entry is not under the root folder, and a machine where the
  course directory is not there yet but a file of that entry's name is.
\<close>

definition stray_archive :: "zipinfo list" where
  "stray_archive = [\<lparr>filename = ''root/'', content = []\<rparr>,
                    \<lparr>filename = ''other/b.txt'', content = ''B''\<rparr>]"

definition stray_state :: "nat state" where
  "stray_state = \<lparr>world = 0,
     files = [''/base/other/b.txt'' \<mapsto> Raw ''mine''],
     dirs = {''/base'', ''/base/other'', ''/home'', ''/home/u''},
     logged = [], trace = []\<rparr>"

section \<open>Concrete environments\<close>

text \<open>A shell whose second command fails with exit status 1 and whose other commands succeed.\<close>

definition demo_shell :: "nat shell" where
  "demo_shell w c = (Inr (if w = 1 then 1 else 0, [], []), Suc w)"

definition st0 :: "nat state" where
  "st0 = \<lparr>world = 0, files = Map.empty, dirs = {}, logged = [], trace = []\<rparr>"

definition demo_hash :: "string \<Rightarrow> string" where
  "demo_hash u = ''0a1b''"




definition server_changed :: "request \<Rightarrow> http_outcome" where
  "server_changed r =
     (if map_of (req_headers r) ''If-None-Match'' = Some ''v2''
      then RaisesHTTPError 304 ''Not Modified''
      else Response 200 ''new'' [(''etag'', ''v2'')])"

definition always_304 :: "request \<Rightarrow> http_outcome" where
  "always_304 r = RaisesHTTPError 304 ''Not Modified''"

text \<open>A machine where \<^verbatim>\<open>code\<close> cannot be started: \<^verbatim>\<open>subprocess.run\<close> raises \<^verbatim>\<open>FileNotFoundError\<close>.\<close>

definition vanished_shell :: "nat shell" where
  "vanished_shell w c = (Inl (OtherException (''[Errno 2] No such file or directory: 'code'' @ [CHR 0x27])), Suc w)"



section \<open>The process boundary\<close>

text \<open>
  Once \<^verbatim>\<open>main\<close> has bound the logger, the boundary behaves as the handlers say: a return
  ends the process with status 0, \<^verbatim>\<open>KeyboardInterrupt\<close> logs the one critical message
  \<^verbatim>\<open>"\rInterrupted"\<close> and ends with status 0, and an \<^verbatim>\<open>Exception\<close> logs one critical
  message, \<^verbatim>\<open>"Error: "\<close> followed by the cause, and ends with status 1.
\<close>

lemma script_with_logger:
  "script True (None, st) = (Exit 0, st)"
  "script True (Some KeyboardInterrupt, st)
     = (Exit 0, st\<lparr>logged := logged st @ [(CRITICAL, CHR 0x0D # ''Interrupted'')]\<rparr>)"
  "is_Exception e \<Longrightarrow> script True (Some e, st)
     = (Exit 1, st\<lparr>logged := logged st @ [(CRITICAL, ''Error: '' @ str_exn e)]\<rparr>)"
  by (cases e; simp add: script_def log_msg_def)+

text \<open>
  Claim C8 fails in the code. The global \<^verbatim>\<open>logger\<close> is only annotated at module level
  (setup.py, line 83) and is bound inside \<^verbatim>\<open>main\<close>, after the arguments are parsed
  (lines 576-579). An interrupt that arrives before that point reaches the handler of
  line 692 with the name unbound: \<^verbatim>\<open>logger.critical("\rInterrupted")\<close> raises
  \<^verbatim>\<open>NameError\<close>, which nothing catches. The process ends with a stack trace and exit
  status 1, and no \<^verbatim>\<open>Interrupted\<close> message is logged, where the claim asks for that
  message, no stack trace, and exit status 0.
\<close>

theorem interrupt_before_logger_is_bound:
  "script False (Some KeyboardInterrupt, st0)
     = (Traceback (OtherException ''name 'logger' is not defined''), st0)
   \<and> exit_status (fst (script False (Some KeyboardInterrupt, st0))) = 1
   \<and> logged (snd (script False (Some KeyboardInterrupt, st0))) = []"
  by (simp add: script_def st0_def)

section \<open>Extension reconciliation\<close>

lemma run_every_command_append:
  "run_every_command sh (as @ bs) w =
     (case run_every_command sh as w of (r1, w1) \<Rightarrow>
        (case run_every_command sh bs w1 of (r2, w2) \<Rightarrow> (r1 @ r2, w2)))"
  by (induction as arbitrary: w) (auto split: prod.splits)

lemma run_every_command_length:
  "run_every_command sh cs w = (rs, w') \<Longrightarrow> length rs = length cs"
  by (induction cs arbitrary: w rs) (auto split: prod.splits)

lemma ext_loop_runs_every_command:
  assumes "run_every_command sh (map mk exts) (world st) = (rs, w)" "list_all ran_to_exit rs"
  shows "ext_loop sh mk exts fails st =
     (None, fails @ failed_entries exts rs,
      st\<lparr>world := w, trace := trace st @ zip (map mk exts) (map exit_code rs)\<rparr>)"
  using assms
proof (induction exts arbitrary: fails st rs w)
  case Nil
  then show ?case by (simp add: failed_entries_def)
next
  case (Cons ext exts)
  obtain r w1 where s: "sh (world st) (mk ext) = (r, w1)" by (cases "sh (world st) (mk ext)")
  obtain rs1 w2 where t: "run_every_command sh (map mk exts) w1 = (rs1, w2)"
    by (cases "run_every_command sh (map mk exts) w1")
  from Cons.prems(1) s t have rs: "rs = r # rs1" and w: "w = w2" by auto
  from Cons.prems(2) rs have "ran_to_exit r" and all: "list_all ran_to_exit rs1" by auto
  then obtain rc out err where r: "r = Inr (rc, out, err)" by (cases r) auto
  let ?st1 = "st\<lparr>world := w1, trace := trace st @ [(mk ext, Some rc)]\<rparr>"
  have t1: "run_every_command sh (map mk exts) (world ?st1) = (rs1, w2)" using t by simp
  show ?case
  proof (cases "rc = 0")
    case True
    have "run sh (mk ext) False True st = (Inr \<lparr>returncode = rc, stdout = None, stderr = None\<rparr>, ?st1)"
      using s r True by (simp add: run_def)
    then show ?thesis
      using Cons.IH [OF t1 all, of fails] True rs w r by (simp add: failed_entries_def)
  next
    case False
    have "run sh (mk ext) False True st = (Inl (CalledProcessError (mk ext) rc), ?st1)"
      using s r False by (simp add: run_def)
    then show ?thesis
      using Cons.IH [OF t1 all, of "fails @ [ext]"] False rs w r by (simp add: failed_entries_def)
  qed
qed

text \<open>
  Claim C7, amended. Take the commands of the desired-install entries followed by those
  of the desired-uninstall entries, and suppose each of them, run in its turn, runs to an
  exit status. Then reconciliation returns without raising, having run exactly these
  commands in this order, each in the world the one before left, whatever the earlier
  exit statuses were; and after the info line it has logged exactly one warning for each
  entry whose command exited with a non-zero status, install failures first.
\<close>

theorem reconcile_runs_every_command:
  assumes "run_every_command sh
             (map (\<lambda>ext. if CHR ''@'' \<in> set ext then [''code'', ''--install-extension'', ext]
                         else [''code'', ''--install-extension'', ext, ''--force'']) ins
              @ map (\<lambda>ext. [''code'', ''--uninstall-extension'', ext]) uns) (world st) = (rs, w)"
      and "list_all ran_to_exit rs"
  shows "reconcile sh ins uns st =
     (None, st\<lparr>world := w,
          trace := trace st @ zip
             (map (\<lambda>ext. if CHR ''@'' \<in> set ext then [''code'', ''--install-extension'', ext]
                         else [''code'', ''--install-extension'', ext, ''--force'']) ins
              @ map (\<lambda>ext. [''code'', ''--uninstall-extension'', ext]) uns) (map exit_code rs),
          logged := logged st @ [(INFO, ''Managing VS Code extensions (user-level)'')]
            @ map (\<lambda>ext. (WARNING, ''Could not install VS Code extension '' @ [CHR 0x27] @ ext @ [CHR 0x27]))
                (failed_entries ins (take (length ins) rs))
            @ map (\<lambda>ext. (WARNING, ''Could not uninstall extension '' @ [CHR 0x27] @ ext @ [CHR 0x27]
                                    @ '' (maybe not installed)''))
                (failed_entries uns (drop (length ins) rs))\<rparr>)"
proof -
  let ?st0 = "log_msg INFO ''Managing VS Code extensions (user-level)'' st"
  have ic: "(\<lambda>ext. if CHR ''@'' \<in> set ext then [''code'', ''--install-extension'', ext]
                         else [''code'', ''--install-extension'', ext, ''--force'']) = install_cmd"
    by (rule ext) (simp add: install_cmd_def)
  have uc: "(\<lambda>ext. [''code'', ''--uninstall-extension'', ext]) = uninstall_cmd"
    by (rule ext) (simp add: uninstall_cmd_def)
  have iw: "(\<lambda>ext. (WARNING, ''Could not install VS Code extension '' @ [CHR 0x27] @ ext @ [CHR 0x27])) = install_warning"
    by (rule ext) (simp add: install_warning_def squote_def)
  have uw: "(\<lambda>ext. (WARNING, ''Could not uninstall extension '' @ [CHR 0x27] @ ext @ [CHR 0x27]
                                    @ '' (maybe not installed)'')) = uninstall_warning"
    by (rule ext) (simp add: uninstall_warning_def squote_def)
  obtain r1 w1 where a: "run_every_command sh (map install_cmd ins) (world st) = (r1, w1)"
    by (cases "run_every_command sh (map install_cmd ins) (world st)")
  obtain r2 w2 where b: "run_every_command sh (map uninstall_cmd uns) w1 = (r2, w2)"
    by (cases "run_every_command sh (map uninstall_cmd uns) w1")
  from assms(1) a b have rs: "rs = r1 @ r2" and w: "w = w2"
    unfolding ic uc by (simp_all add: run_every_command_append)
  have l1: "length r1 = length ins" using run_every_command_length [OF a] by simp
  have l2: "length r2 = length uns" using run_every_command_length [OF b] by simp
  from assms(2) rs have ok1: "list_all ran_to_exit r1" and ok2: "list_all ran_to_exit r2" by simp_all
  have a0: "run_every_command sh (map install_cmd ins) (world ?st0) = (r1, w1)"
    using a by (simp add: log_msg_def)
  note e1 = ext_loop_runs_every_command [OF a0 ok1, of "[]"]
  let ?st1 = "?st0\<lparr>world := w1, trace := trace ?st0 @ zip (map install_cmd ins) (map exit_code r1)\<rparr>"
  have b0: "run_every_command sh (map uninstall_cmd uns) (world ?st1) = (r2, w2)"
    using b by simp
  note e2 = ext_loop_runs_every_command [OF b0 ok2, of "[]"]
  show ?thesis
    unfolding ic uc iw uw
    using e1 e2 rs w l1 l2 by (simp add: reconcile_def Let_def log_msg_def)
qed

text \<open>
  Claim C7 as stated fails: only \<^verbatim>\<open>CalledProcessError\<close> is caught (setup.py, lines 525
  and 534). When the first install command cannot be started, the error leaves the loop:
  the batch is aborted after one command, the two other entries are never processed, and
  no warning is logged.
\<close>

theorem reconcile_spawn_failure_aborts_counterexample:
  "reconcile vanished_shell [''a@1'', ''b''] [''d''] st0 =
     (Some (OtherException (''[Errno 2] No such file or directory: 'code'' @ [CHR 0x27])),
      st0\<lparr>world := 1, logged := [(INFO, ''Managing VS Code extensions (user-level)'')],
          trace := [([''code'', ''--install-extension'', ''a@1''], None)]\<rparr>)"
  by (simp add: reconcile_def vanished_shell_def run_def log_msg_def st0_def install_cmd_def Let_def)

theorem reconcile_runs_every_command_witness:
  "run_every_command demo_shell
     [[''code'', ''--install-extension'', ''a@1''], [''code'', ''--install-extension'', ''b'', ''--force''],
      [''code'', ''--uninstall-extension'', ''d'']] (world st0)
     = ([Inr (0, [], []), Inr (1, [], []), Inr (0, [], [])], 3)
   \<and> list_all ran_to_exit [Inr (0, [], []), Inr (1, [], []), Inr (0::int, [], [])]
   \<and> reconcile demo_shell [''a@1'', ''b''] [''d''] st0 =
     (None, st0\<lparr>world := 3,
        trace := [([''code'', ''--install-extension'', ''a@1''], Some 0),
                  ([''code'', ''--install-extension'', ''b'', ''--force''], Some 1),
                  ([''code'', ''--uninstall-extension'', ''d''], Some 0)],
        logged := [(INFO, ''Managing VS Code extensions (user-level)''),
                   (WARNING, ''Could not install VS Code extension 'b'' @ [CHR 0x27])]\<rparr>)"
  using reconcile_runs_every_command [of demo_shell "[''a@1'', ''b'']" "[''d'']" st0
      "[Inr (0, [], []), Inr (1, [], []), Inr (0, [], [])]" 3]
  by (simp add: demo_shell_def st0_def failed_entries_def)


section \<open>The conditional cache downloader\<close>


text \<open>
  Claim C10. Without a metadata file for the URL, the request carries no conditional
  header. If the answer is nevertheless 304 (response or \<^verbatim>\<open>HTTPError\<close>), the download
  returns the cache path and creates no file: the content file exists afterwards only if
  it existed before, and there is still no metadata file. After a response with any other
  status both files exist.
\<close>

theorem fetch_304_without_metadata:
  assumes "files st (meta_path d h url) = None"
  shows "((urlopen \<lparr>req_url = url, req_headers = [(''User-Agent'', ''Client'')]\<rparr> = Response 304 b rh
           \<or> urlopen \<lparr>req_url = url, req_headers = [(''User-Agent'', ''Client'')]\<rparr> = RaisesHTTPError 304 m)
          \<longrightarrow> (\<exists>s'. download_with_etag urlopen d h url st = (Inr (cache_path d h url), s')
                  \<and> files s' = files st
                  \<and> (cache_path d h url \<in> dom (files s') \<longleftrightarrow> cache_path d h url \<in> dom (files st))
                  \<and> meta_path d h url \<notin> dom (files s')))
       \<and> (urlopen \<lparr>req_url = url, req_headers = [(''User-Agent'', ''Client'')]\<rparr> = Response status b rh
            \<and> status \<noteq> 304
          \<longrightarrow> (\<exists>s'. download_with_etag urlopen d h url st = (Inr (cache_path d h url), s')
                  \<and> cache_path d h url \<in> dom (files s') \<and> meta_path d h url \<in> dom (files s')))"
  using assms
  by (auto simp: download_with_etag_def request_headers_def Let_def log_msg_def)

section \<open>Updating a git checkout\<close>









lemma demo_paths:
  "cache_path ''/c'' demo_hash u = ''/c/0a1b''" "meta_path ''/c'' demo_hash u = ''/c/0a1b.meta.json''"
  by (simp_all add: cache_path_def meta_path_def demo_hash_def)



theorem fetch_304_without_metadata_witness:
  "files st0 (meta_path ''/c'' demo_hash ''http://x/a.zip'') = None
   \<and> always_304 \<lparr>req_url = ''http://x/a.zip'', req_headers = [(''User-Agent'', ''Client'')]\<rparr>
       = RaisesHTTPError 304 ''Not Modified''
   \<and> (\<exists>s'. download_with_etag always_304 ''/c'' demo_hash ''http://x/a.zip'' st0 = (Inr ''/c/0a1b'', s')
          \<and> ''/c/0a1b'' \<notin> dom (files s') \<and> ''/c/0a1b.meta.json'' \<notin> dom (files s'))
   \<and> server_changed \<lparr>req_url = ''http://x/a.zip'', req_headers = [(''User-Agent'', ''Client'')]\<rparr>
       = Response 200 ''new'' [(''etag'', ''v2'')]
   \<and> (200::nat) \<noteq> 304
   \<and> (\<exists>s'. download_with_etag server_changed ''/c'' demo_hash ''http://x/a.zip'' st0 = (Inr ''/c/0a1b'', s')
          \<and> ''/c/0a1b'' \<in> dom (files s') \<and> ''/c/0a1b.meta.json'' \<in> dom (files s'))"
proof -
  have m: "files st0 (meta_path ''/c'' demo_hash ''http://x/a.zip'') = None"
    by (simp add: st0_def)
  have c: "server_changed \<lparr>req_url = ''http://x/a.zip'', req_headers = [(''User-Agent'', ''Client'')]\<rparr>
       = Response 200 ''new'' [(''etag'', ''v2'')]"
    by (simp add: server_changed_def)
  have e: "''/c/0a1b'' \<notin> dom (files st0)"
    by (simp add: st0_def)
  from fetch_304_without_metadata [OF m, of always_304 "[]" "[]" "''Not Modified''" 200]
    fetch_304_without_metadata [OF m, of server_changed "''new''" "[(''etag'', ''v2'')]" "[]" 200]
    m c e
  show ?thesis by (auto simp: demo_paths always_304_def)
qed

section \<open>The retrying cloner\<close>

lemma clone_loop_attempts:
  assumes "\<forall>i. \<exists>d\<le>D. dur i = Some d" "elapsed = started_at dur i"
  shows "\<exists>le t st' n rs. clone_loop sh dur c budget elapsed i st = Some (le, t, st')
     \<and> run_every_command sh (replicate n c) (world st) = (rs, world st')
     \<and> (\<forall>j<n. int (started_at dur (i + j)) < budget)
     \<and> list_all retried (butlast rs)
     \<and> logged st' = logged st
     \<and> (case le of
          Expired \<Rightarrow> list_all retried rs \<and> t = started_at dur (i + n) \<and> budget \<le> int t
        | Returned \<Rightarrow> rs \<noteq> [] \<and> succeeded (last rs)
        | Raised e \<Rightarrow> rs \<noteq> [] \<and> last rs = Inl e \<and> \<not> retried (Inl e))"
  using assms
proof (induction sh dur c budget elapsed i st rule: clone_loop.induct)
  case (1 sh dur c budget elapsed i st)
  note ih = "1"(1)
  note el = "1"(3)
  show ?case
  proof (cases "int elapsed < budget")
    case False
    then have l: "clone_loop sh dur c budget elapsed i st = Some (Expired, elapsed, st)"
      by (simp add: clone_loop.simps [of sh dur c budget elapsed i st])
    show ?thesis
      apply (rule exI [of _ Expired], rule exI [of _ elapsed], rule exI [of _ st],
             rule exI [of _ 0], rule exI [of _ "[]"])
      using False el l by simp
  next
    case True
    from "1"(2) obtain d where dd: "dur i = Some d" and dD: "d \<le> D" by blast
    obtain r w1 where s: "sh (world st) c = (r, w1)" by (cases "sh (world st) c")
    have nxt: "elapsed + d + 1000 = started_at dur (Suc i)"
      using el dd by simp
    have rec: "\<exists>le t st' n rs. clone_loop sh dur c budget elapsed i st = Some (le, t, st')
       \<and> run_every_command sh (replicate n c) (world st) = (rs, world st')
       \<and> (\<forall>j<n. int (started_at dur (i + j)) < budget)
       \<and> list_all retried (butlast rs)
       \<and> logged st' = logged st
       \<and> (case le of
            Expired \<Rightarrow> list_all retried rs \<and> t = started_at dur (i + n) \<and> budget \<le> int t
          | Returned \<Rightarrow> rs \<noteq> [] \<and> succeeded (last rs)
          | Raised e \<Rightarrow> rs \<noteq> [] \<and> last rs = Inl e \<and> \<not> retried (Inl e))"
      if rn: "run sh c False True st = (Inl (CalledProcessError c' rc), st1)"
        and w: "world st1 = w1" and lg: "logged st1 = logged st" and rt: "retried r"
      for c' rc st1
    proof -
      from ih [OF True dd rn [symmetric] refl refl "1"(2) nxt]
      obtain le t st' n rs where
        a: "clone_loop sh dur c budget (elapsed + d + 1000) (Suc i) st1 = Some (le, t, st')"
        and b: "run_every_command sh (replicate n c) (world st1) = (rs, world st')"
        and c: "\<forall>j<n. int (started_at dur (Suc i + j)) < budget"
        and e: "list_all retried (butlast rs)"
        and f: "logged st' = logged st1"
        and g: "(case le of
            Expired \<Rightarrow> list_all retried rs \<and> t = started_at dur (Suc i + n) \<and> budget \<le> int t
          | Returned \<Rightarrow> rs \<noteq> [] \<and> succeeded (last rs)
          | Raised e \<Rightarrow> rs \<noteq> [] \<and> last rs = Inl e \<and> \<not> retried (Inl e))"
        by blast
      have l: "clone_loop sh dur c budget elapsed i st = Some (le, t, st')"
        using True dd rn a by (simp add: clone_loop.simps [of sh dur c budget elapsed i st])
      have b': "run_every_command sh (replicate (Suc n) c) (world st) = (r # rs, world st')"
        using s b w by simp
      have c': "\<forall>j<Suc n. int (started_at dur (i + j)) < budget"
      proof (intro allI impI)
        fix j assume "j < Suc n"
        show "int (started_at dur (i + j)) < budget"
        proof (cases j)
          case 0
          then show ?thesis using True el by simp
        next
          case (Suc k)
          with \<open>j < Suc n\<close> have "k < n" by simp
          with c have "int (started_at dur (Suc i + k)) < budget" by blast
          then show ?thesis using Suc by simp
        qed
      qed
      have e': "list_all retried (butlast (r # rs))"
        using e rt by simp
      have g': "(case le of
            Expired \<Rightarrow> list_all retried (r # rs) \<and> t = started_at dur (i + Suc n) \<and> budget \<le> int t
          | Returned \<Rightarrow> r # rs \<noteq> [] \<and> succeeded (last (r # rs))
          | Raised e \<Rightarrow> r # rs \<noteq> [] \<and> last (r # rs) = Inl e \<and> \<not> retried (Inl e))"
        using g rt by (cases le) auto
      show ?thesis
        apply (rule exI [of _ le], rule exI [of _ t], rule exI [of _ st'],
               rule exI [of _ "Suc n"], rule exI [of _ "r # rs"])
        using l b' c' e' f lg g' by simp
    qed
    have one: "run_every_command sh (replicate (Suc 0) c) (world st) = ([r], w1)"
      using s by simp
    have c1: "\<forall>j<Suc 0. int (started_at dur (i + j)) < budget"
      using True el by simp
    show ?thesis
    proof (cases r)
      case (Inr q)
      obtain rc out err where q: "q = (rc, out, err)" by (cases q)
      let ?st1 = "st\<lparr>world := w1, trace := trace st @ [(c, Some rc)]\<rparr>"
      show ?thesis
      proof (cases "rc = 0")
        case z: True
        have rn: "run sh c False True st = (Inr \<lparr>returncode = rc, stdout = None, stderr = None\<rparr>, ?st1)"
          using s Inr q z by (simp add: run_def)
        have l: "clone_loop sh dur c budget elapsed i st = Some (Returned, elapsed + d, ?st1)"
          using True dd rn by (simp add: clone_loop.simps [of sh dur c budget elapsed i st])
        show ?thesis
          apply (rule exI [of _ Returned], rule exI [of _ "elapsed + d"], rule exI [of _ ?st1],
                 rule exI [of _ "Suc 0"], rule exI [of _ "[r]"])
          using l one c1 Inr q z by simp
      next
        case nz: False
        have rn: "run sh c False True st = (Inl (CalledProcessError c rc), ?st1)"
          using s Inr q nz by (simp add: run_def)
        show ?thesis
          by (rule rec [OF rn]) (simp_all add: Inr q nz)
      qed
    next
      case (Inl e)
      let ?st1 = "st\<lparr>world := w1, trace := trace st @ [(c, None)]\<rparr>"
      have rn: "run sh c False True st = (Inl e, ?st1)"
        using s Inl by (simp add: run_def)
      show ?thesis
      proof (cases "retried (Inl e)")
        case True
        then obtain c' rc where e: "e = CalledProcessError c' rc"
          by (cases e) simp_all
        show ?thesis
          by (rule rec [OF rn [unfolded e]]) (simp_all add: Inl e)
      next
        case nr: False
        have l: "clone_loop sh dur c budget elapsed i st = Some (Raised e, elapsed + d, ?st1)"
          using True dd rn nr by (cases e) (simp_all add: clone_loop.simps [of sh dur c budget elapsed i st])
        show ?thesis
          apply (rule exI [of _ "Raised e"], rule exI [of _ "elapsed + d"], rule exI [of _ ?st1],
                 rule exI [of _ "Suc 0"], rule exI [of _ "[r]"])
          using l one c1 Inl nr by simp
      qed
    qed
  qed
qed

lemma retried_not_succeeded: "retried r \<Longrightarrow> \<not> succeeded r"
  by (cases r rule: retried.cases) simp_all

lemma no_success_when_retried: "list_all retried rs \<Longrightarrow> \<not> list_ex succeeded rs"
  by (induction rs) (auto dest: retried_not_succeeded)

lemma last_decides:
  assumes "rs \<noteq> []" "list_all retried (butlast rs)"
  shows "list_ex succeeded rs = succeeded (last rs)" "list_all retried rs = retried (last rs)"
proof -
  have rs: "rs = butlast rs @ [last rs]" using assms(1) by simp
  have a: "list_ex succeeded (butlast rs @ [last rs]) = succeeded (last rs)"
    using no_success_when_retried [OF assms(2)] by simp
  have b: "list_all retried (butlast rs @ [last rs]) = retried (last rs)"
    using assms(2) by simp
  show "list_ex succeeded rs = succeeded (last rs)" using a rs by metis
  show "list_all retried rs = retried (last rs)" using b rs by metis
qed

text \<open>
  Claim C4, amended. Suppose every attempt ends, within \<open>D\<close> milliseconds. Then the cloner
  returns or raises. Its attempts are runs of the clone command by the shell, one after
  the other, each started while the elapsed time was below the budget, and all but the
  last ended in the \<^verbatim>\<open>CalledProcessError\<close> that is retried. It fails if and only if no
  attempt completed successfully and, in addition, either an attempt raised another
  exception (which is then the one raised) or the destination does not exist when the
  loop has ended (then \<^verbatim>\<open>RuntimeError("Failed to clone ...")\<close> is raised). When every
  attempt was retried, the loop ends when the next attempt would have started: no
  earlier than the budget, and less than \<open>D\<close> milliseconds plus one second after it (after
  the start, for a budget that is not positive).
\<close>

theorem clone_fails_iff_no_success_and_no_dest:
  assumes "\<forall>i. \<exists>d\<le>D. dur i = Some d"
  shows "\<exists>r t st' n rs.
     git_clone_with_retries sh dur dest_exists url dest timeout deep st = Some (r, t, st')
   \<and> run_every_command sh
        (replicate n (if deep then [''git'', ''clone'', url, dest]
                      else [''git'', ''clone'', ''--depth'', ''1'', ''--single-branch'', url, dest]))
        (world st) = (rs, world st')
   \<and> (\<forall>j<n. int (started_at dur j) < 1000 * timeout)
   \<and> list_all retried (butlast rs)
   \<and> (r \<noteq> None \<longleftrightarrow>
        \<not> list_ex succeeded rs \<and> (\<not> list_all retried rs \<or> \<not> dest_exists (world st')))
   \<and> (list_all retried rs \<longrightarrow>
        r = (if dest_exists (world st') then None else Some (RuntimeError (''Failed to clone '' @ url)))
        \<and> t = started_at dur n \<and> 1000 * timeout \<le> int t
        \<and> int t < max 0 (1000 * timeout) + int D + 1000)
   \<and> (\<forall>e. rs \<noteq> [] \<and> last rs = Inl e \<and> \<not> retried (Inl e) \<longrightarrow> r = Some e)
   \<and> logged st' = logged st @ [(INFO, ''Cloning project: '' @ url)]"
proof -
  let ?st0 = "log_msg INFO (''Cloning project: '' @ url) st"
  let ?c = "clone_cmd url dest deep"
  have cc: "(if deep then [''git'', ''clone'', url, dest]
             else [''git'', ''clone'', ''--depth'', ''1'', ''--single-branch'', url, dest]) = ?c"
    by (simp add: clone_cmd_def)
  have z: "(0::nat) = started_at dur 0" by simp
  from clone_loop_attempts [OF assms z, of sh ?c "1000 * timeout" ?st0]
  obtain le t st' n rs where
    l: "clone_loop sh dur ?c (1000 * timeout) 0 0 ?st0 = Some (le, t, st')"
    and b: "run_every_command sh (replicate n ?c) (world ?st0) = (rs, world st')"
    and c: "\<forall>j<n. int (started_at dur (0 + j)) < 1000 * timeout"
    and e: "list_all retried (butlast rs)"
    and f: "logged st' = logged ?st0"
    and g: "(case le of
          Expired \<Rightarrow> list_all retried rs \<and> t = started_at dur (0 + n) \<and> 1000 * timeout \<le> int t
        | Returned \<Rightarrow> rs \<noteq> [] \<and> succeeded (last rs)
        | Raised e \<Rightarrow> rs \<noteq> [] \<and> last rs = Inl e \<and> \<not> retried (Inl e))"
    by blast
  have b': "run_every_command sh (replicate n ?c) (world st) = (rs, world st')"
    using b by (simp add: log_msg_def)
  have c': "\<forall>j<n. int (started_at dur j) < 1000 * timeout" using c by simp
  have f': "logged st' = logged st @ [(INFO, ''Cloning project: '' @ url)]"
    using f by (simp add: log_msg_def)
  have ub: "int (started_at dur n) < max 0 (1000 * timeout) + int D + 1000"
  proof (cases n)
    case 0
    then show ?thesis by simp
  next
    case (Suc m)
    with c' have m: "int (started_at dur m) < 1000 * timeout" by simp
    from assms obtain d where "dur m = Some d" "d \<le> D" by blast
    then have "int (started_at dur (Suc m)) \<le> int (started_at dur m) + int D + 1000" by simp
    with m have "int (started_at dur (Suc m)) < 1000 * timeout + int D + 1000" by linarith
    then show ?thesis using Suc by simp
  qed
  show ?thesis
  proof (cases le)
    case Returned
    with g have ne: "rs \<noteq> []" and su: "succeeded (last rs)" by simp_all
    have ex: "list_ex succeeded rs" using last_decides(1) [OF ne e] su by simp
    have nr: "\<not> list_all retried rs"
      using last_decides(2) [OF ne e] su retried_not_succeeded by blast
    have la: "\<And>x. last rs = Inl x \<Longrightarrow> False" using su by auto
    have r: "git_clone_with_retries sh dur dest_exists url dest timeout deep st = Some (None, t, st')"
      using l Returned by (simp add: git_clone_with_retries_def)
    show ?thesis
      unfolding cc
      apply (rule exI [of _ None], rule exI [of _ t], rule exI [of _ st'],
             rule exI [of _ n], rule exI [of _ rs])
      using r b' c' e f' ex nr la by auto
  next
    case (Raised x)
    with g have ne: "rs \<noteq> []" and la: "last rs = Inl x" and nx: "\<not> retried (Inl x)" by simp_all
    have ex: "\<not> list_ex succeeded rs" using last_decides(1) [OF ne e] la by simp
    have nr: "\<not> list_all retried rs" using last_decides(2) [OF ne e] la nx by simp
    have r: "git_clone_with_retries sh dur dest_exists url dest timeout deep st = Some (Some x, t, st')"
      using l Raised by (simp add: git_clone_with_retries_def)
    show ?thesis
      unfolding cc
      apply (rule exI [of _ "Some x"], rule exI [of _ t], rule exI [of _ st'],
             rule exI [of _ n], rule exI [of _ rs])
      using r b' c' e f' ex nr la by simp
  next
    case Expired
    with g have al: "list_all retried rs" and t: "t = started_at dur n"
      and lb: "1000 * timeout \<le> int t" by simp_all
    have ex: "\<not> list_ex succeeded rs" using no_success_when_retried [OF al] .
    have la: "\<And>x. rs \<noteq> [] \<Longrightarrow> last rs = Inl x \<Longrightarrow> retried (Inl x)"
      using al by (metis last_in_set list_all_iff)
    let ?r = "if dest_exists (world st') then None else Some (RuntimeError (''Failed to clone '' @ url))"
    have r: "git_clone_with_retries sh dur dest_exists url dest timeout deep st = Some (?r, t, st')"
      using l Expired by (simp add: git_clone_with_retries_def)
    show ?thesis
      unfolding cc
      apply (rule exI [of _ ?r], rule exI [of _ t], rule exI [of _ st'],
             rule exI [of _ n], rule exI [of _ rs])
      using r b' c' e f' ex al la t lb ub by auto
  qed
qed

lemma st0_world: "world st0 = 0"
  by (simp add: st0_def)

lemma failing_clone:
  "git_clone_with_retries failing_shell instant de ''u'' ''/d'' 2 False st0
     = Some (if \<not> de (Suc (Suc 0)) then Some (RuntimeError ''Failed to clone u'') else None, 2000,
        st0\<lparr>world := 2, logged := [(INFO, ''Cloning project: u'')],
          trace := [([''git'', ''clone'', ''--depth'', ''1'', ''--single-branch'', ''u'', ''/d''], Some 128),
                    ([''git'', ''clone'', ''--depth'', ''1'', ''--single-branch'', ''u'', ''/d''], Some 128)]\<rparr>)"
  by (simp add: git_clone_with_retries_def clone_loop.simps run_def failing_shell_def instant_def
      st0_def log_msg_def Let_def clone_cmd_def)

text \<open>
  Claim C4 as stated fails, in both directions of its equivalence with "no attempt
  completes successfully before the time budget expires". With a budget of two seconds,
  two attempts that both exit with status 128 and a destination that exists when the loop
  ends, the cloner returns normally although no attempt succeeded (the guard of line
  306). With the same budget and a first attempt that succeeds after five seconds, the
  cloner returns normally, three seconds after the budget has expired: an attempt is only
  started within the budget, it is never cut short (\<^verbatim>\<open>run\<close> passes no timeout).
\<close>

theorem clone_returns_without_timely_success_counterexample:
  "git_clone_with_retries failing_shell instant dest_present ''u'' ''/d'' 2 False st0
     = Some (None, 2000,
        st0\<lparr>world := 2, logged := [(INFO, ''Cloning project: u'')],
          trace := [([''git'', ''clone'', ''--depth'', ''1'', ''--single-branch'', ''u'', ''/d''], Some 128),
                    ([''git'', ''clone'', ''--depth'', ''1'', ''--single-branch'', ''u'', ''/d''], Some 128)]\<rparr>)
   \<and> git_clone_with_retries working_shell five_seconds dest_present ''u'' ''/d'' 2 False st0
     = Some (None, 5000,
        st0\<lparr>world := 1, logged := [(INFO, ''Cloning project: u'')],
          trace := [([''git'', ''clone'', ''--depth'', ''1'', ''--single-branch'', ''u'', ''/d''], Some 0)]\<rparr>)
   \<and> (1000 * 2 < int 5000)"
  by (simp add: failing_clone dest_present_def)
     (simp add: git_clone_with_retries_def clone_loop.simps run_def working_shell_def five_seconds_def
      st0_def log_msg_def Let_def clone_cmd_def dest_present_def)

theorem clone_fails_iff_no_success_and_no_dest_witness:
  "(\<forall>i. \<exists>d\<le>0. instant i = Some d)
   \<and> git_clone_with_retries failing_shell instant dest_absent ''u'' ''/d'' 2 False st0
     = Some (Some (RuntimeError ''Failed to clone u''), 2000,
        st0\<lparr>world := 2, logged := [(INFO, ''Cloning project: u'')],
          trace := [([''git'', ''clone'', ''--depth'', ''1'', ''--single-branch'', ''u'', ''/d''], Some 128),
                    ([''git'', ''clone'', ''--depth'', ''1'', ''--single-branch'', ''u'', ''/d''], Some 128)]\<rparr>)
   \<and> run_every_command failing_shell
        (replicate 2 [''git'', ''clone'', ''--depth'', ''1'', ''--single-branch'', ''u'', ''/d'']) (world st0)
       = ([Inr (128, [], []), Inr (128, [], [])], 2)
   \<and> list_all retried [Inr (128, [], []), Inr (128::int, [], [])]
   \<and> \<not> list_ex succeeded [Inr (128, [], []), Inr (128::int, [], [])]
   \<and> \<not> dest_absent 2
   \<and> started_at instant 0 = 0 \<and> started_at instant 1 = 1000 \<and> started_at instant 2 = 2000
   \<and> (1000 * 2 \<le> int 2000) \<and> int 2000 < max 0 (1000 * 2) + int 0 + 1000"
  using clone_fails_iff_no_success_and_no_dest [of 0 instant failing_shell dest_absent "''u''" "''/d''" 2 False st0]
  by (simp add: failing_clone dest_absent_def instant_def failing_shell_def st0_world numeral_2_eq_2)

section \<open>Release selection\<close>

lemma py_max_by_props:
  "py_max_by b xs \<in> set (b # xs) \<and> (\<forall>x \<in> set (b # xs). fst x \<le> fst (py_max_by b xs))"
proof (induction xs arbitrary: b)
  case Nil
  then show ?case by simp
next
  case (Cons x xs)
  from Cons.IH [of "if fst b < fst x then x else b"]
  show ?case by (auto split: if_splits)
qed

lemma set_map_filter: "set (List.map_filter f xs) = {y. \<exists>x \<in> set xs. f x = Some y}"
  by (induction xs) (auto simp: List.map_filter_simps split: option.splits)

lemma not_digit_dot_dash [simp]: "\<not> is_digit (CHR ''.'')" "\<not> is_digit (CHR ''-'')"
  by (simp_all add: is_digit_def)

lemma span_digits:
  assumes "list_all is_digit a" and "r = [] \<or> \<not> is_digit (hd r)"
  shows "takeWhile is_digit (a @ r) = a \<and> dropWhile is_digit (a @ r) = r"
  using assms
proof (induction a)
  case Nil
  then show ?case by (cases r) auto
next
  case (Cons x a)
  then show ?case by auto
qed

lemma dot_group_digits:
  assumes "b \<noteq> []" and "list_all is_digit b" and "r = [] \<or> \<not> is_digit (hd r)"
  shows "dot_group (CHR ''.'' # b @ r) = Some (CHR ''.'' # b, r)"
  using assms span_digits [OF assms(2,3)] by (simp add: dot_group_def)

lemma dot_group_no_dot:
  assumes "r = [] \<or> hd r \<noteq> CHR ''.''"
  shows "dot_group r = None"
  using assms by (cases r) (auto simp: dot_group_def)

lemma dot_group_SomeD:
  assumes "dot_group r = Some (g, r')"
  shows "\<exists>b. g = CHR ''.'' # b \<and> b \<noteq> [] \<and> list_all is_digit b \<and> r = g @ r'"
proof (cases r)
  case Nil
  with assms show ?thesis by (simp add: dot_group_def)
next
  case (Cons c t)
  with assms have g: "c = CHR ''.''" "takeWhile is_digit t \<noteq> []"
    "g = c # takeWhile is_digit t" "r' = dropWhile is_digit t"
    by (auto simp: dot_group_def split: if_splits)
  have "list_all is_digit (takeWhile is_digit t)"
    by (auto simp: list_all_iff dest: set_takeWhileD)
  with g Cons show ?thesis by auto
qed

lemma match_version_strict:
  assumes "1 \<le> length nums" and "length nums \<le> 3"
      and "\<forall>n \<in> set nums. n \<noteq> [] \<and> list_all is_digit n"
      and "r = [] \<or> hd r = CHR ''-''"
  shows "match_version (CHR ''v'' # intercalate ''.'' nums @ r) = Some (CHR ''v'' # intercalate ''.'' nums, r)"
proof -
  have r1: "r = [] \<or> \<not> is_digit (hd r)" using assms(4) by auto
  have r2: "r = [] \<or> hd r \<noteq> CHR ''.''" using assms(4) by auto
  from assms(1,2) consider a where "nums = [a]" | a b where "nums = [a, b]"
    | a b c where "nums = [a, b, c]"
    by (cases nums rule: list.exhaust; simp; metis (no_types) Suc_le_length_iff length_0_conv
         length_Suc_conv le_Suc_eq le_zero_eq numeral_3_eq_3 list.size(3,4) One_nat_def not_less_eq_eq)
  then show ?thesis
  proof cases
    case 1
    with assms(3) have a: "a \<noteq> []" "list_all is_digit a" by auto
    from span_digits [OF a(2) r1] a(1) dot_group_no_dot [OF r2] 1
    show ?thesis by (simp add: match_version_def)
  next
    case 2
    with assms(3) have a: "a \<noteq> []" "list_all is_digit a" "b \<noteq> []" "list_all is_digit b" by auto
    have "takeWhile is_digit (a @ CHR ''.'' # b @ r) = a \<and> dropWhile is_digit (a @ CHR ''.'' # b @ r) = CHR ''.'' # b @ r"
      using span_digits [OF a(2), of "CHR ''.'' # b @ r"] by simp
    with a(1) dot_group_digits [OF a(3,4) r1] dot_group_no_dot [OF r2] 2
    show ?thesis by (simp add: match_version_def)
  next
    case 3
    with assms(3) have a: "a \<noteq> []" "list_all is_digit a" "b \<noteq> []" "list_all is_digit b"
      "c \<noteq> []" "list_all is_digit c" by auto
    have t: "takeWhile is_digit (a @ CHR ''.'' # b @ CHR ''.'' # c @ r) = a
        \<and> dropWhile is_digit (a @ CHR ''.'' # b @ CHR ''.'' # c @ r) = CHR ''.'' # b @ CHR ''.'' # c @ r"
      using span_digits [OF a(2), of "CHR ''.'' # b @ CHR ''.'' # c @ r"] by simp
    have d: "dot_group (CHR ''.'' # b @ CHR ''.'' # c @ r) = Some (CHR ''.'' # b, CHR ''.'' # c @ r)"
      using dot_group_digits [OF a(3,4), of "CHR ''.'' # c @ r"] by simp
    from t d a(1) dot_group_digits [OF a(5,6) r1] 3
    show ?thesis by (simp add: match_version_def)
  qed
qed

lemma match_version_SomeD:
  assumes "match_version tag = Some (vt, r)"
  shows "\<exists>nums. 1 \<le> length nums \<and> length nums \<le> 3
        \<and> (\<forall>n \<in> set nums. n \<noteq> [] \<and> list_all is_digit n)
        \<and> vt = CHR ''v'' # intercalate ''.'' nums \<and> tag = vt @ r"
proof (cases tag)
  case Nil
  with assms show ?thesis by (simp add: match_version_def)
next
  case (Cons c t)
  let ?d = "takeWhile is_digit t"
  let ?r1 = "dropWhile is_digit t"
  from assms Cons have c: "c = CHR ''v''" "?d \<noteq> []"
    by (auto simp: match_version_def split: if_splits)
  have dd: "list_all is_digit ?d"
    by (auto simp: list_all_iff dest: set_takeWhileD)
  show ?thesis
  proof (cases "dot_group ?r1")
    case None
    with assms Cons c have v: "vt = c # ?d" "r = ?r1"
      by (auto simp: match_version_def Let_def)
    have "tag = vt @ r" using v Cons by simp
    with v c dd show ?thesis
      by (intro exI [of _ "[?d]"]) simp
  next
    case (Some p)
    obtain g2 r2 where p: "p = (g2, r2)" by (cases p)
    from dot_group_SomeD [OF Some [unfolded p]] obtain b where
      b: "g2 = CHR ''.'' # b" "b \<noteq> []" "list_all is_digit b" "?r1 = g2 @ r2" by blast
    have t2: "?d @ g2 @ r2 = t" using b(4) by (metis takeWhile_dropWhile_id)
    show ?thesis
    proof (cases "dot_group r2")
      case None
      with assms Cons c Some p have v: "vt = (c # ?d) @ g2" "r = r2"
        by (auto simp: match_version_def Let_def)
      have "tag = vt @ r" using v Cons t2 by simp
      with v c dd b(1,2,3) show ?thesis
        by (intro exI [of _ "[?d, b]"]) simp
    next
      case s3: (Some q)
      obtain g3 r3 where q: "q = (g3, r3)" by (cases q)
      from dot_group_SomeD [OF s3 [unfolded q]] obtain b3 where
        b3: "g3 = CHR ''.'' # b3" "b3 \<noteq> []" "list_all is_digit b3" "r2 = g3 @ r3" by blast
      from assms Cons c Some p s3 q have v: "vt = (c # ?d) @ g2 @ g3" "r = r3"
        by (auto simp: match_version_def Let_def)
      have "tag = vt @ r" using v Cons t2 b3(4) by simp
      with v c dd b(1,2,3) b3(1,2,3) show ?thesis
        by (intro exI [of _ "[?d, b, b3]"]) simp
    qed
  qed
qed

lemma match_label_no_newline:
  assumes "newline \<notin> set r"
  shows "match_label r = Some label \<longleftrightarrow>
         (case label of None \<Rightarrow> r = [] | Some l \<Rightarrow> l \<noteq> [] \<and> r = CHR ''-'' # l)"
  using assms
  by (cases r; cases label) (auto simp: match_label_def)

lemma parse_tag_strict:
  assumes "newline \<notin> set tag"
  shows "parse_tag tag = (Some vt, label) \<longleftrightarrow> strict_tag tag vt label"
proof
  assume p: "parse_tag tag = (Some vt, label)"
  then obtain r where m: "match_version tag = Some (vt, r)" "match_label r = Some label"
    by (auto simp: parse_tag_def split: option.splits)
  from match_version_SomeD [OF m(1)] obtain nums where
    n: "1 \<le> length nums" "length nums \<le> 3" "\<forall>n \<in> set nums. n \<noteq> [] \<and> list_all is_digit n"
       "vt = CHR ''v'' # intercalate ''.'' nums" "tag = vt @ r" by blast
  from n(5) assms have "newline \<notin> set r" by auto
  from m(2) [unfolded match_label_no_newline [OF this]] n
  show "strict_tag tag vt label"
    unfolding strict_tag_def by (intro exI [of _ nums]) (auto split: option.splits)
next
  assume "strict_tag tag vt label"
  then obtain nums where
    n: "1 \<le> length nums" "length nums \<le> 3" "\<forall>n \<in> set nums. n \<noteq> [] \<and> list_all is_digit n"
       "vt = CHR ''v'' # intercalate ''.'' nums"
       "case label of None \<Rightarrow> tag = vt | Some l \<Rightarrow> l \<noteq> [] \<and> tag = vt @ ''-'' @ l"
    unfolding strict_tag_def by blast
  define r where "r = (case label of None \<Rightarrow> [] | Some l \<Rightarrow> CHR ''-'' # l)"
  have t: "tag = vt @ r" using n(5) by (auto simp: r_def split: option.splits)
  have h: "r = [] \<or> hd r = CHR ''-''" by (auto simp: r_def split: option.splits)
  have nl: "newline \<notin> set r" using t assms by auto
  have l: "match_label r = Some label"
    unfolding match_label_no_newline [OF nl] using n(5) by (auto simp: r_def split: option.splits)
  from match_version_strict [OF n(1,2,3) h] l t n(4)
  show "parse_tag tag = (Some vt, label)"
    by (simp add: parse_tag_def)
qed

lemma py_split_no_sep:
  "c \<notin> set a \<Longrightarrow> py_split c a = [a]"
  by (induction a) auto

lemma py_split_append:
  "c \<notin> set a \<Longrightarrow> py_split c (a @ c # r) = a # py_split c r"
  by (induction a) auto

lemma py_split_intercalate:
  "xs \<noteq> [] \<Longrightarrow> \<forall>x \<in> set xs. c \<notin> set x \<Longrightarrow> py_split c (intercalate [c] xs) = xs"
proof (induction "[c]" xs rule: intercalate.induct)
  case 1
  then show ?case by simp
next
  case (2 x)
  then show ?case by (simp add: py_split_no_sep)
next
  case (3 x y ys)
  then show ?case by (simp add: py_split_append)
qed

lemma digits_no_dot: "list_all is_digit n \<Longrightarrow> CHR ''.'' \<notin> set n"
  by (auto simp: list_all_iff)

lemma Version_strict:
  assumes "nums \<noteq> []" and "\<forall>n \<in> set nums. n \<noteq> [] \<and> list_all is_digit n"
  shows "\<exists>v. Version (intercalate ''.'' nums) = Some v"
proof -
  have "py_split (CHR ''.'') (intercalate ''.'' nums) = nums"
    using assms by (intro py_split_intercalate) (auto dest: digits_no_dot)
  with assms(2) show ?thesis
    by (simp add: Version_def list_all_iff)
qed

lemma prefix_filter:
  "(case vp of None \<Rightarrow> False | Some p \<Rightarrow> p \<noteq> [] \<and> \<not> prefix p vt)
     \<longleftrightarrow> \<not> (\<forall>p. vp = Some p \<and> p \<noteq> [] \<longrightarrow> prefix p vt)"
  by (cases vp) simp_all

lemma label_filter:
  "(case lr of None \<Rightarrow> False
    | Some q \<Rightarrow> q \<noteq> [] \<and> (case label of None \<Rightarrow> True | Some l \<Rightarrow> \<not> m q l))
     \<longleftrightarrow> \<not> (\<forall>q. lr = Some q \<and> q \<noteq> [] \<longrightarrow> (\<exists>l. label = Some l \<and> m q l))"
  by (cases lr; cases label) simp_all

lemma candidate_unfold:
  assumes "parse_tag (tag_name r) = (Some vt, label)"
  shows "candidate m vp lr r =
     (if vt = [] \<or> \<not> (\<forall>p. vp = Some p \<and> p \<noteq> [] \<longrightarrow> prefix p vt)
         \<or> \<not> (\<forall>q. lr = Some q \<and> q \<noteq> [] \<longrightarrow> (\<exists>l. label = Some l \<and> m q l))
      then None
      else map_option (\<lambda>v. (v, r)) (Version (tl vt)))"
  unfolding candidate_def assms prod.case option.case prefix_filter label_filter
  by (cases "Version (tl vt)") simp_all

lemma candidate_no_match:
  assumes "fst (parse_tag (tag_name r)) = None"
  shows "candidate m vp lr r = None"
  using assms by (cases "parse_tag (tag_name r)") (simp add: candidate_def)

lemma eligibleD:
  "eligible m vp lr r \<Longrightarrow>
     \<exists>vt label. strict_tag (tag_name r) vt label
        \<and> (\<forall>vp'. vp = Some vp' \<and> vp' \<noteq> [] \<longrightarrow> prefix vp' vt)
        \<and> (\<forall>lr'. lr = Some lr' \<and> lr' \<noteq> [] \<longrightarrow> (\<exists>l. label = Some l \<and> m lr' l))"
  unfolding eligible_def .

lemma strict_tagD:
  assumes "strict_tag tag vt label"
  shows "\<exists>nums. nums \<noteq> [] \<and> (\<forall>n \<in> set nums. n \<noteq> [] \<and> list_all is_digit n)
        \<and> vt = CHR ''v'' # intercalate ''.'' nums"
proof -
  from assms [unfolded strict_tag_def] obtain nums where
    "1 \<le> length nums" "\<forall>n \<in> set nums. n \<noteq> [] \<and> list_all is_digit n"
    "vt = CHR ''v'' # intercalate ''.'' nums"
    by (elim exE conjE)
  moreover from this(1) have "nums \<noteq> []" by (cases nums) simp_all
  ultimately show ?thesis by (intro exI [of _ nums] conjI)
qed

lemma candidate_iff_eligible:
  assumes "newline \<notin> set (tag_name r)"
  shows "candidate m vp lr r = Some x \<longleftrightarrow> x = (tag_version r, r) \<and> eligible m vp lr r"
proof
  assume c: "candidate m vp lr r = Some x"
  obtain vo label where pt: "parse_tag (tag_name r) = (vo, label)"
    by (cases "parse_tag (tag_name r)")
  with c candidate_no_match [of r m vp lr] obtain vt where vo: "vo = Some vt"
    by (cases vo) simp_all
  note p = pt [unfolded vo]
  from c [unfolded candidate_unfold [OF p]]
  have f: "\<forall>p. vp = Some p \<and> p \<noteq> [] \<longrightarrow> prefix p vt"
      "\<forall>q. lr = Some q \<and> q \<noteq> [] \<longrightarrow> (\<exists>l. label = Some l \<and> m q l)"
    and v: "map_option (\<lambda>v. (v, r)) (Version (tl vt)) = Some x"
    by (auto split: if_splits)
  from v obtain v' where v': "Version (tl vt) = Some v'" "x = (v', r)" by auto
  from p have s: "strict_tag (tag_name r) vt label"
    by (simp add: parse_tag_strict [OF assms])
  have "tag_version r = v'" using p v'(1) by (simp add: tag_version_def)
  moreover have "eligible m vp lr r"
    unfolding eligible_def using s f by (intro exI [of _ vt] exI [of _ label] conjI)
  ultimately show "x = (tag_version r, r) \<and> eligible m vp lr r" using v'(2) by simp
next
  assume "x = (tag_version r, r) \<and> eligible m vp lr r"
  then have x: "x = (tag_version r, r)" and el: "eligible m vp lr r" by simp_all
  from eligibleD [OF el] obtain vt label where
    e: "strict_tag (tag_name r) vt label"
       "\<forall>p. vp = Some p \<and> p \<noteq> [] \<longrightarrow> prefix p vt"
       "\<forall>q. lr = Some q \<and> q \<noteq> [] \<longrightarrow> (\<exists>l. label = Some l \<and> m q l)"
    by (elim exE conjE)
  from e(1) have p: "parse_tag (tag_name r) = (Some vt, label)"
    by (simp only: parse_tag_strict [OF assms])
  from strict_tagD [OF e(1)] obtain nums where
    n: "nums \<noteq> []" "\<forall>n \<in> set nums. n \<noteq> [] \<and> list_all is_digit n"
       "vt = CHR ''v'' # intercalate ''.'' nums"
    by (elim exE conjE)
  note this(1)
  from Version_strict [OF this n(2)] n(3) obtain v where v: "Version (tl vt) = Some v" by auto
  have tv: "tag_version r = v" using p v by (simp add: tag_version_def)
  have ne: "vt \<noteq> []" using n(3) by simp
  show "candidate m vp lr r = Some x"
    unfolding candidate_unfold [OF p] using e(2,3) ne v tv x by simp
qed

lemma matches_set:
  assumes "\<forall>r \<in> set releases. newline \<notin> set (tag_name r)"
  shows "set (List.map_filter (candidate m vp lr) releases)
           = {(tag_version r, r) | r. r \<in> set releases \<and> eligible m vp lr r}"
  using assms by (auto simp: set_map_filter candidate_iff_eligible)

lemma select_three_prefix:
  "select_latest_matching_release literal_re_match three_releases (Some ''v1.2'') None
     = Some \<lparr>tag_name = ''v1.2.5'', assets = []\<rparr>"
  by code_simp

lemma select_three_label:
  "select_latest_matching_release literal_re_match three_releases None (Some ''beta'')
     = Some \<lparr>tag_name = ''v1.3.0-beta'', assets = []\<rparr>"
  by code_simp

text \<open>
  Claim C5. For releases whose tags contain no newline (a git tag cannot), selection
  returns \<open>None\<close> exactly when no release is eligible, that is, has a tag of the strict
  form \<^verbatim>\<open>vMAJOR[.MINOR[.PATCH]][-label]\<close> that passes the optional version-prefix
  filter and the optional label filter; otherwise it returns an eligible release of the
  list whose parsed version is greatest among the eligible ones. Among the tags
  \<^verbatim>\<open>v1.2.0\<close>, \<^verbatim>\<open>v1.3.0-beta\<close>, \<^verbatim>\<open>v1.2.5\<close> the prefix \<^verbatim>\<open>v1.2\<close> selects \<^verbatim>\<open>v1.2.5\<close>,
  and the label pattern \<^verbatim>\<open>beta\<close> without a prefix selects \<^verbatim>\<open>v1.3.0-beta\<close>.
\<close>

theorem select_latest_is_max_eligible:
  assumes "\<forall>r \<in> set releases. newline \<notin> set (tag_name r)"
  shows "(select_latest_matching_release m releases vp lr = None
            \<longleftrightarrow> (\<forall>r \<in> set releases. \<not> eligible m vp lr r))
       \<and> (\<forall>r. select_latest_matching_release m releases vp lr = Some r
            \<longrightarrow> r \<in> set releases \<and> eligible m vp lr r
                \<and> (\<forall>r' \<in> set releases. eligible m vp lr r' \<longrightarrow> tag_version r' \<le> tag_version r))
       \<and> select_latest_matching_release literal_re_match three_releases (Some ''v1.2'') None
            = Some \<lparr>tag_name = ''v1.2.5'', assets = []\<rparr>
       \<and> select_latest_matching_release literal_re_match three_releases None (Some ''beta'')
            = Some \<lparr>tag_name = ''v1.3.0-beta'', assets = []\<rparr>"
proof -
  let ?ms = "List.map_filter (candidate m vp lr) releases"
  note ms = matches_set [OF assms, of m vp lr]
  have a: "select_latest_matching_release m releases vp lr = None
            \<longleftrightarrow> (\<forall>r \<in> set releases. \<not> eligible m vp lr r)"
  proof (cases ?ms)
    case Nil
    with ms have "\<forall>r \<in> set releases. \<not> eligible m vp lr r" by auto
    with Nil show ?thesis by (simp add: select_latest_matching_release_def)
  next
    case (Cons x xs)
    then have "x \<in> set ?ms" by simp
    with ms have "\<exists>r \<in> set releases. eligible m vp lr r" by auto
    with Cons show ?thesis by (auto simp: select_latest_matching_release_def)
  qed
  have b: "\<forall>r. select_latest_matching_release m releases vp lr = Some r
            \<longrightarrow> r \<in> set releases \<and> eligible m vp lr r
                \<and> (\<forall>r' \<in> set releases. eligible m vp lr r' \<longrightarrow> tag_version r' \<le> tag_version r)"
  proof (intro allI impI)
    fix r assume s: "select_latest_matching_release m releases vp lr = Some r"
    then obtain x xs where c: "?ms = x # xs" "r = snd (py_max_by x xs)"
      by (auto simp: select_latest_matching_release_def split: list.splits)
    from py_max_by_props [of x xs] c(1)
    have mx: "py_max_by x xs \<in> set ?ms" "\<forall>y \<in> set ?ms. fst y \<le> fst (py_max_by x xs)"
      by simp_all
    from mx(1) ms c(2) have r: "py_max_by x xs = (tag_version r, r)" "r \<in> set releases"
      "eligible m vp lr r" by auto
    have "\<forall>r' \<in> set releases. eligible m vp lr r' \<longrightarrow> tag_version r' \<le> tag_version r"
    proof (intro ballI impI)
      fix r' assume "r' \<in> set releases" "eligible m vp lr r'"
      with ms have "(tag_version r', r') \<in> set ?ms" by auto
      with mx(2) r(1) show "tag_version r' \<le> tag_version r" by fastforce
    qed
    with r show "r \<in> set releases \<and> eligible m vp lr r
                \<and> (\<forall>r' \<in> set releases. eligible m vp lr r' \<longrightarrow> tag_version r' \<le> tag_version r)"
      by simp
  qed
  from a b select_three_prefix select_three_label show ?thesis by (intro conjI)
qed

lemma three_releases_no_newline: "\<forall>r \<in> set three_releases. newline \<notin> set (tag_name r)"
  by (simp add: three_releases_def newline_def)

theorem select_latest_is_max_eligible_witness:
  "list_all (\<lambda>r. newline \<notin> set (tag_name r)) three_releases
   \<and> select_latest_matching_release literal_re_match three_releases (Some ''v1.2'') None
       = Some \<lparr>tag_name = ''v1.2.5'', assets = []\<rparr>
   \<and> \<lparr>tag_name = ''v1.2.5'', assets = []\<rparr> \<in> set three_releases
   \<and> eligible literal_re_match (Some ''v1.2'') None \<lparr>tag_name = ''v1.2.5'', assets = []\<rparr>
   \<and> list_all (\<lambda>r'. eligible literal_re_match (Some ''v1.2'') None r'
         \<longrightarrow> tag_version r' \<le> tag_version \<lparr>tag_name = ''v1.2.5'', assets = []\<rparr>) three_releases"
proof -
  note t = select_latest_is_max_eligible
    [OF three_releases_no_newline, of literal_re_match "Some ''v1.2''" None]
  note s = t [THEN conjunct2, THEN conjunct2, THEN conjunct1]
  note b = t [THEN conjunct2, THEN conjunct1, THEN spec, THEN mp, OF s]
  from three_releases_no_newline s b show ?thesis
    unfolding list_all_iff by (intro conjI) (elim conjE; assumption)+
qed

section \<open>The archive extractor\<close>

lemma py_split_not_Nil: "py_split c s \<noteq> []"
  by (induction s) (auto split: list.splits)

text \<open>
  Claim C9. On an archive without members the extractor raises \<^verbatim>\<open>IndexError\<close> and the
  file store is as before: nothing was written. For every archive with at least one
  member the root prefix is computed without an exception (\<^verbatim>\<open>split\<close> never returns
  an empty list): it is a component followed by a slash.
\<close>

theorem extract_empty_archive_raises:
  "(\<exists>st'. extract_archive cwd target_exists [] extract_to overwrite force st
             = (Some (IndexError ''list index out of range''), st')
          \<and> files st' = files st)
   \<and> (members \<noteq> [] \<longrightarrow> (\<exists>c. root_prefix members = Inr (c @ ''/'')))"
proof -
  have a: "\<exists>st'. extract_archive cwd target_exists [] extract_to overwrite force st
             = (Some (IndexError ''list index out of range''), st')
          \<and> files st' = files st"
    by (simp add: extract_archive_def root_prefix_def log_msg_def Let_def)
  have b: "members \<noteq> [] \<longrightarrow> (\<exists>c. root_prefix members = Inr (c @ ''/''))"
  proof
    assume "members \<noteq> []"
    then obtain m ms where m: "members = m # ms" by (cases members) auto
    obtain c cs where "py_split (CHR ''/'') (filename m) = c # cs"
      using py_split_not_Nil [of "CHR ''/''" "filename m"] by (cases "py_split (CHR ''/'') (filename m)") auto
    with m show "\<exists>c. root_prefix members = Inr (c @ ''/'')"
      by (simp add: root_prefix_def)
  qed
  from a b show ?thesis ..
qed

lemma one_root_prefix: "root_prefix one_root = Inr ''root/''"
  by (simp add: root_prefix_def one_root_def)

theorem extract_empty_archive_raises_witness:
  "one_root \<noteq> [] \<and> root_prefix one_root = Inr ''root/''"
  using extract_empty_archive_raises [of "''/home/u''" False "''/base/course''" False "{}" st0 one_root]
    one_root_prefix
  by (simp add: one_root_def)

end
